theory Spec2Isabelle
  imports Complex_Main "HOL-Library.Char_ord" "HOL-Library.List_Lexorder"
begin

section \<open>Data model\<close>

text \<open>
  The profiling engine of \<^verbatim>\<open>services/dataService.ts\<close>: \<^verbatim>\<open>calculateColumnStats\<close> (the
  per-column flow) and \<^verbatim>\<open>generateGlobalAnalysis\<close> (the dataset-level flow), with their
  helpers \<^verbatim>\<open>getMedian\<close>, \<^verbatim>\<open>getMode\<close>, \<^verbatim>\<open>getStandardDeviation\<close> and \<^verbatim>\<open>getOutlierCount\<close>.

  A cell of a \<^verbatim>\<open>DataRow\<close> is a number, a text, \<^verbatim>\<open>null\<close> or \<^verbatim>\<open>undefined\<close>. A number
  cell holds a finite binary64 value, given by the real number it denotes (\<open>isDouble\<close>
  below; a literal such as \<^verbatim>\<open>0.1\<close> stands for the binary64 value nearest to it); cells
  holding NaN or an infinity are outside the model. The results of arithmetic are
  binary64 numbers with rounding, overflow to the infinities and NaN. Texts are lists of
  characters, ordered lexicographically by character code.
\<close>

datatype cell = Num real | Str string | Null | Undefined

text \<open>
  A row is a JavaScript object: its own properties in enumeration order, each key once
  (the order of \<^verbatim>\<open>Object.keys\<close> and \<^verbatim>\<open>JSON.stringify\<close>: the keys that are array indices
  first, ascending, then the other keys in insertion order).
  \<^verbatim>\<open>row[col]\<close> of a key the row does not have is \<^verbatim>\<open>undefined\<close> (column names are taken
  not to be names of members that every object inherits, such as \<^verbatim>\<open>constructor\<close>).
\<close>

type_synonym DataRow = "(string \<times> cell) list"

definition getCell :: "DataRow \<Rightarrow> string \<Rightarrow> cell" where
  "getCell row col = (case map_of row col of Some v \<Rightarrow> v | None \<Rightarrow> Undefined)"

section \<open>Binary64 arithmetic\<close>

text \<open>
  The value of a JavaScript number: a finite real, an infinity or NaN. The sign of zero is
  not modelled (the profiling code never divides by zero, so it cannot observe it).
\<close>

datatype number = Finite real | PosInf | NegInf | NaN

text \<open>
  Rounding to the nearest binary64 value, ties to the even significand. The values around
  \<open>x\<close> are the multiples of \<open>ulp x\<close>, which is \<open>2\<close> to the power \<open>e - 52\<close> where \<open>e\<close> is the
  binary exponent of \<open>x\<close>, at least \<open>-1022\<close> (below it the values are subnormal, with the
  spacing \<open>2\<close> to the \<open>-1074\<close>). A result that rounds to magnitude \<open>2 ^ 1024\<close> or more
  overflows to an infinity.
\<close>

definition roundEven :: "real \<Rightarrow> int" where
  "roundEven y =
     (let f = \<lfloor>y\<rfloor>; d = y - of_int f
      in if d < 1 / 2 then f else if 1 / 2 < d then f + 1 else if even f then f else f + 1)"

definition binadeExp :: "real \<Rightarrow> int" where
  "binadeExp x = max \<lfloor>log 2 \<bar>x\<bar>\<rfloor> (- 1022)"

definition ulp :: "real \<Rightarrow> real" where
  "ulp x = 2 powr of_int (binadeExp x - 52)"

definition roundMag :: "real \<Rightarrow> real" where
  "roundMag x = of_int (roundEven (\<bar>x\<bar> / ulp x)) * ulp x"

definition round64 :: "real \<Rightarrow> real" where
  "round64 x = (if x = 0 then 0 else sgn x * roundMag x)"

definition binary64 :: "real \<Rightarrow> number" where
  "binary64 x =
     (let r = round64 x
      in if 2 ^ 1024 \<le> r then PosInf else if r \<le> - (2 ^ 1024) then NegInf else Finite r)"

text \<open>The finite binary64 values: a significand of at most 53 bits, an exponent from \<open>-1074\<close>.\<close>

definition isDouble :: "real \<Rightarrow> bool" where
  "isDouble x = (\<exists>k t. x = of_int k * 2 powr of_int t \<and> \<bar>k\<bar> < 2 ^ 53 \<and> - 1074 \<le> t
                   \<and> \<bar>x\<bar> < 2 ^ 1024)"

text \<open>
  The operators \<^verbatim>\<open>+\<close>, \<^verbatim>\<open>-\<close>, \<^verbatim>\<open>*\<close> and \<^verbatim>\<open>/\<close> round the exact result of finite operands,
  and follow IEEE 754 on the infinities and NaN. The comparisons \<^verbatim>\<open><\<close> and \<^verbatim>\<open><=\<close> are
  exact, and false when an operand is NaN.
\<close>

fun negate :: "number \<Rightarrow> number" where
  "negate (Finite x) = Finite (- x)"
| "negate PosInf = NegInf"
| "negate NegInf = PosInf"
| "negate NaN = NaN"

fun plus64 :: "number \<Rightarrow> number \<Rightarrow> number" where
  "plus64 (Finite x) (Finite y) = binary64 (x + y)"
| "plus64 NaN b = NaN"
| "plus64 a NaN = NaN"
| "plus64 (Finite x) b = b"
| "plus64 a (Finite y) = a"
| "plus64 a b = (if a = b then a else NaN)"

definition minus64 :: "number \<Rightarrow> number \<Rightarrow> number" where
  "minus64 a b = plus64 a (negate b)"

fun times64 :: "number \<Rightarrow> number \<Rightarrow> number" where
  "times64 (Finite x) (Finite y) = binary64 (x * y)"
| "times64 NaN b = NaN"
| "times64 a NaN = NaN"
| "times64 (Finite x) b = (if x = 0 then NaN else if 0 < x then b else negate b)"
| "times64 a (Finite y) = (if y = 0 then NaN else if 0 < y then a else negate a)"
| "times64 a b = (if a = b then PosInf else NegInf)"

fun divide64 :: "number \<Rightarrow> number \<Rightarrow> number" where
  "divide64 (Finite x) (Finite y) =
     (if y = 0 then (if x = 0 then NaN else if 0 < x then PosInf else NegInf)
      else binary64 (x / y))"
| "divide64 NaN b = NaN"
| "divide64 a NaN = NaN"
| "divide64 (Finite x) b = Finite 0"
| "divide64 a (Finite y) = (if 0 \<le> y then a else negate a)"
| "divide64 a b = NaN"

fun less64 :: "number \<Rightarrow> number \<Rightarrow> bool" where
  "less64 (Finite x) (Finite y) = (x < y)"
| "less64 NaN b = False"
| "less64 a NaN = False"
| "less64 NegInf b = (b \<noteq> NegInf)"
| "less64 a PosInf = (a \<noteq> PosInf)"
| "less64 a b = False"


definition lessEq64 :: "number \<Rightarrow> number \<Rightarrow> bool" where
  "lessEq64 a b = (less64 a b \<or> (a = b \<and> a \<noteq> NaN))"

section \<open>The platform\<close>

text \<open>
  What the code takes from the JavaScript platform and not from the repository:
  \<^verbatim>\<open>Date.parse\<close> (the time value in milliseconds, \<open>None\<close> for NaN; \<^verbatim>\<open>new Date(s).getTime()\<close>
  is the same function), \<^verbatim>\<open>Date.prototype.toISOString\<close> on a time value, \<^verbatim>\<open>String(v)\<close> on a
  number, \<^verbatim>\<open>Number(k)\<close> on a text (\<open>None\<close> for NaN), and \<^verbatim>\<open>Math.pow\<close> and \<^verbatim>\<open>Math.sqrt\<close>, whose
  precision the language leaves to the implementation. They are parameters of the model.
\<close>

record platform =
  Date_parse :: "string \<Rightarrow> int option"
  Date_toISOString :: "int \<Rightarrow> string"
  Number_toString :: "real \<Rightarrow> string"
  String_toNumber :: "string \<Rightarrow> real option"
  Math_pow :: "number \<Rightarrow> number \<Rightarrow> number"
  Math_sqrt :: "number \<Rightarrow> number"

text \<open>\<^verbatim>\<open>String(v)\<close>.\<close>

fun StringOf :: "platform \<Rightarrow> cell \<Rightarrow> string" where
  "StringOf p (Num x) = Number_toString p x"
| "StringOf p (Str s) = s"
| "StringOf p Null = ''null''"
| "StringOf p Undefined = ''undefined''"

text \<open>\<^verbatim>\<open>typeof v === 'number'\<close> and \<^verbatim>\<open>typeof v === 'string'\<close>.\<close>

fun isNumber :: "cell \<Rightarrow> bool" where
  "isNumber (Num x) = True"
| "isNumber v = False"

fun isString :: "cell \<Rightarrow> bool" where
  "isString (Str s) = True"
| "isString v = False"

text \<open>The filter \<^verbatim>\<open>v !== null && v !== '' && v !== undefined\<close> of both flows.\<close>

definition nonMissing :: "cell \<Rightarrow> bool" where
  "nonMissing v = (v \<noteq> Null \<and> v \<noteq> Str [] \<and> v \<noteq> Undefined)"

text \<open>\<^verbatim>\<open>data.map(row => row[column])\<close>.\<close>

definition columnValues :: "DataRow list \<Rightarrow> string \<Rightarrow> cell list" where
  "columnValues data col = map (\<lambda>row. getCell row col) data"

text \<open>\<^verbatim>\<open>new Set(values).size\<close>.\<close>

definition setSize :: "'a list \<Rightarrow> nat" where
  "setSize values = length (remdups values)"

text \<open>The numbers among the cells, in order: \<^verbatim>\<open>filter(v => typeof v === 'number') as number[]\<close>.\<close>

fun numbersOf :: "cell list \<Rightarrow> real list" where
  "numbersOf [] = []"
| "numbersOf (Num x # vs) = x # numbersOf vs"
| "numbersOf (v # vs) = numbersOf vs"

text \<open>
  \<^verbatim>\<open>xs[i]\<close> is \<^verbatim>\<open>undefined\<close> out of range, and \<^verbatim>\<open>v || 0\<close> is 0 for \<^verbatim>\<open>undefined\<close> and for
  the falsy number 0.
\<close>

definition elemAt :: "'a list \<Rightarrow> nat \<Rightarrow> 'a option" where
  "elemAt xs i = (if i < length xs then Some (xs ! i) else None)"

definition orZero :: "real option \<Rightarrow> real" where
  "orZero v = (case v of None \<Rightarrow> 0 | Some x \<Rightarrow> if x = 0 then 0 else x)"

text \<open>A count in a template literal: the decimal digits of a natural number.\<close>

function decimal :: "nat \<Rightarrow> string" where
  "decimal n =
     (if n < 10 then [''0123456789'' ! n]
      else decimal (n div 10) @ [''0123456789'' ! (n mod 10)])"
  by pat_completeness auto
termination
  by (relation "measure id") auto

declare decimal.simps [simp del]

section \<open>Stats utilities\<close>

text \<open>
  \<^verbatim>\<open>sort((a, b) => a - b)\<close> orders finite numbers ascending: the binary64 difference of two
  finite numbers has the sign of their exact difference.
\<close>

definition getMedian :: "real list \<Rightarrow> number" where
  "getMedian values =
     (if length values = 0 then Finite 0
      else let sorted = sort values;
               mid = nat \<lfloor>real (length sorted) / 2\<rfloor>
           in if length sorted mod 2 \<noteq> 0 then Finite (sorted ! mid)
              else divide64 (plus64 (Finite (sorted ! (mid - 1))) (Finite (sorted ! mid)))
                     (Finite 2))"

definition getStandardDeviation :: "platform \<Rightarrow> real list \<Rightarrow> number \<Rightarrow> number" where
  "getStandardDeviation p values mean =
     (if length values = 0 then Finite 0
      else let squareDiffs = map (\<lambda>v. Math_pow p (minus64 (Finite v) mean) (Finite 2)) values;
               avgSquareDiff = divide64 (foldl plus64 (Finite 0) squareDiffs)
                                 (Finite (real (length values)))
           in Math_sqrt p avgSquareDiff)"

definition getOutlierCount :: "real list \<Rightarrow> real \<Rightarrow> real \<Rightarrow> nat" where
  "getOutlierCount values q1 q3 =
     (let iqr = minus64 (Finite q3) (Finite q1);
          lowerBound = minus64 (Finite q1) (times64 (Finite 1.5) iqr);
          upperBound = plus64 (Finite q3) (times64 (Finite 1.5) iqr)
      in length (filter (\<lambda>v. less64 (Finite v) lowerBound \<or> less64 upperBound (Finite v)) values))"

subsection \<open>getMode\<close>

text \<open>
  \<^verbatim>\<open>getMode\<close> is local to the module and its one caller passes \<^verbatim>\<open>numericValues\<close>, so
  its input is a list of numbers and \<^verbatim>\<open>String(v)\<close> is the platform's rendering of a number.
  \<^verbatim>\<open>counts\<close> is a plain object used as a dictionary from \<^verbatim>\<open>String(v)\<close> to a frequency. It
  is modelled by its properties in creation order. \<^verbatim>\<open>Object.keys\<close> does not return them in
  that order: the keys that are array indices (the canonical decimal form of an integer
  from 0 to 2^32 - 2) come first, in ascending numeric order, and the other keys follow in
  creation order.
\<close>

definition isDigit :: "char \<Rightarrow> bool" where
  "isDigit c = (c \<in> set ''0123456789'')"

definition digitVal :: "char \<Rightarrow> nat" where
  "digitVal c = of_char c - 48"

definition decVal :: "string \<Rightarrow> nat" where
  "decVal s = foldl (\<lambda>acc c. 10 * acc + digitVal c) 0 s"

definition arrayIndex :: "string \<Rightarrow> nat option" where
  "arrayIndex s =
     (if s \<noteq> [] \<and> list_all isDigit s \<and> (s = ''0'' \<or> hd s \<noteq> CHR ''0'')
         \<and> decVal s < 4294967295
      then Some (decVal s) else None)"

definition ownPropertyKeys :: "string list \<Rightarrow> string list" where
  "ownPropertyKeys ks =
     sort_key (\<lambda>k. case arrayIndex k of Some i \<Rightarrow> i | None \<Rightarrow> 0)
       (filter (\<lambda>k. arrayIndex k \<noteq> None) ks)
     @ filter (\<lambda>k. arrayIndex k = None) ks"

definition Object_keys :: "(string \<times> 'v) list \<Rightarrow> string list" where
  "Object_keys obj = ownPropertyKeys (map fst obj)"

text \<open>\<^verbatim>\<open>counts[key]\<close> and \<^verbatim>\<open>counts[key] = c\<close>.\<close>

definition getCount :: "(string \<times> nat) list \<Rightarrow> string \<Rightarrow> nat option" where
  "getCount counts key = map_of counts key"

definition setCount :: "(string \<times> nat) list \<Rightarrow> string \<Rightarrow> nat \<Rightarrow> (string \<times> nat) list" where
  "setCount counts key c =
     (if key \<in> set (map fst counts)
      then map (\<lambda>(k, n). if k = key then (k, c) else (k, n)) counts
      else counts @ [(key, c)])"

text \<open>One round of the \<^verbatim>\<open>forEach\<close>, on the state \<^verbatim>\<open>(counts, maxFreq)\<close>.\<close>

definition countStep :: "platform \<Rightarrow> (string \<times> nat) list \<times> nat \<Rightarrow> real \<Rightarrow> (string \<times> nat) list \<times> nat" where
  "countStep p st v =
     (let key = StringOf p (Num v);
          c = (case getCount (fst st) key of None \<Rightarrow> 0 | Some n \<Rightarrow> n) + 1;
          counts = setCount (fst st) key c
      in (counts, if c > snd st then c else snd st))"

text \<open>\<^verbatim>\<open>!isNaN(Number(k)) ? Number(k) : k\<close>.\<close>

definition numberOrText :: "platform \<Rightarrow> string \<Rightarrow> cell" where
  "numberOrText p k = (case String_toNumber p k of Some x \<Rightarrow> Num x | None \<Rightarrow> Str k)"

definition getMode :: "platform \<Rightarrow> real list \<Rightarrow> cell list" where
  "getMode p values =
     (if length values = 0 then []
      else let st = foldl (countStep p) ([], 0) values;
               counts = fst st;
               maxFreq = snd st
           in take 3 (map (numberOrText p)
                (filter (\<lambda>k. getCount counts k = Some maxFreq) (Object_keys counts))))"

section \<open>The per-column flow: calculateColumnStats\<close>

record Quartiles =
  q1 :: real
  q2 :: number
  q3 :: real

record ColumnStats =
  cs_type :: string
  cs_count :: nat
  cs_unique :: nat
  cs_missing :: nat
  cs_mean :: "number option"
  cs_median :: "number option"
  cs_min :: "cell option"
  cs_max :: "cell option"
  cs_stdDev :: "number option"
  cs_quartiles :: "Quartiles option"

definition calculateColumnStats :: "platform \<Rightarrow> DataRow list \<Rightarrow> string \<Rightarrow> ColumnStats" where
  "calculateColumnStats p data column =
     (let values = columnValues data column;
          nonNullValues = filter nonMissing values;
          count = length values;
          missing = count - length nonNullValues;
          unique = setSize values;
          isNumeric = (length nonNullValues > 0 \<and> list_all isNumber nonNullValues)
      in if isNumeric then
           (let numericValues = numbersOf nonNullValues;
                sum = foldl (\<lambda>a b. plus64 a (Finite b)) (Finite 0) numericValues;
                mean = (if length numericValues > 0
                        then divide64 sum (Finite (real (length numericValues))) else Finite 0);
                min = (if length numericValues > 0 then Min (set numericValues) else 0);
                max = (if length numericValues > 0 then Max (set numericValues) else 0);
                median = getMedian numericValues;
                stdDev = getStandardDeviation p numericValues mean;
                sorted = sort numericValues;
                q1 = orZero (elemAt sorted (nat \<lfloor>real (length sorted) * 0.25\<rfloor>));
                q2 = median;
                q3 = orZero (elemAt sorted (nat \<lfloor>real (length sorted) * 0.75\<rfloor>))
            in \<lparr>cs_type = ''Numeric'', cs_count = count, cs_unique = unique,
                cs_missing = missing, cs_mean = Some mean, cs_median = Some median,
                cs_min = Some (Num min), cs_max = Some (Num max), cs_stdDev = Some stdDev,
                cs_quartiles = Some \<lparr>q1 = q1, q2 = q2, q3 = q3\<rparr>\<rparr>)
         else
           (let stringValues = map (StringOf p) nonNullValues
            in \<lparr>cs_type = ''Categorical'', cs_count = count, cs_unique = unique,
                cs_missing = missing, cs_mean = None, cs_median = None,
                cs_min = (if length stringValues > 0
                          then map_option Str (elemAt (sort stringValues) 0) else None),
                cs_max = (if length stringValues > 0
                          then map_option Str (elemAt (sort (sort stringValues)) (length stringValues - 1))
                          else None),
                cs_stdDev = None, cs_quartiles = None\<rparr>))"

section \<open>The dataset-level flow: generateGlobalAnalysis\<close>

record NumericStats =
  ns_mean :: number
  ns_median :: number
  ns_mode :: "cell list"
  ns_min :: real
  ns_max :: real
  ns_stdDev :: number
  ns_outliers :: nat

record DateStats =
  ds_min :: string
  ds_max :: string
  ds_invalidCount :: nat

record ColumnAnalysis =
  ca_name :: string
  ca_missing :: nat
  ca_unique :: nat
  ca_type :: string
  ca_issues :: "string list"
  ca_numericStats :: "NumericStats option"
  ca_dateStats :: "DateStats option"

record GlobalAnalysisReport =
  totalRows :: nat
  totalCols :: nat
  duplicateRows :: nat
  columns :: "string \<Rightarrow> ColumnAnalysis option"

subsection \<open>Duplicate rows\<close>

text \<open>
  \<^verbatim>\<open>JSON.stringify(row)\<close> writes the members of the row in enumeration order and leaves out
  the members whose value is \<^verbatim>\<open>undefined\<close>. The JSON text is represented by the list of its
  members: the text determines that list and the list determines the text, so two rows
  have the same text exactly when they have the same list.
\<close>

datatype json = JNumber real | JString string | JNull

fun jsonValue :: "cell \<Rightarrow> json option" where
  "jsonValue (Num x) = Some (JNumber x)"
| "jsonValue (Str s) = Some (JString s)"
| "jsonValue Null = Some JNull"
| "jsonValue Undefined = None"

fun JSON_stringify :: "DataRow \<Rightarrow> (string \<times> json) list" where
  "JSON_stringify [] = []"
| "JSON_stringify ((k, v) # row) =
     (case jsonValue v of None \<Rightarrow> JSON_stringify row
      | Some j \<Rightarrow> (k, j) # JSON_stringify row)"

text \<open>One round of \<^verbatim>\<open>data.forEach\<close>, on the state \<^verbatim>\<open>(seenRows, duplicateRows)\<close>.\<close>

definition scanRow :: "(string \<times> json) list set \<times> nat \<Rightarrow> DataRow \<Rightarrow> (string \<times> json) list set \<times> nat" where
  "scanRow st row =
     (let rowStr = JSON_stringify row
      in if rowStr \<in> fst st then (fst st, snd st + 1)
         else (insert rowStr (fst st), snd st))"

definition countDuplicateRows :: "DataRow list \<Rightarrow> nat" where
  "countDuplicateRows data = snd (foldl scanRow ({}, 0) data)"

subsection \<open>Column analysis\<close>

text \<open>
  The callback of \<^verbatim>\<open>columns.forEach\<close>, in the order of the source: the type detection
  heuristic with its counts, the numeric statistics, the date statistics, and the
  assembled \<^verbatim>\<open>ColumnAnalysis\<close>.
\<close>

definition looksLikeDate :: "platform \<Rightarrow> cell \<Rightarrow> bool" where
  "looksLikeDate p v =
     (case v of
        Str s \<Rightarrow> Date_parse p s \<noteq> None \<and> (CHR ''-'' \<in> set s \<or> CHR ''/'' \<in> set s)
      | _ \<Rightarrow> False)"

definition numCount :: "cell list \<Rightarrow> nat" where
  "numCount nonNull = length (filter isNumber nonNull)"

definition strCount :: "cell list \<Rightarrow> nat" where
  "strCount nonNull = length (filter isString nonNull)"

definition dateCount :: "platform \<Rightarrow> cell list \<Rightarrow> nat" where
  "dateCount p nonNull = length (filter (looksLikeDate p) nonNull)"

text \<open>
  The primary type and the issues it seeds. The product \<^verbatim>\<open>nonNull.length * 0.8\<close> is exact
  here. In doubles it is rounded, and its comparison with the count comes out the same:
  the rounded product is \<open>4 n / 5\<close> when that is an integer, and lies strictly between the
  two nearest integers otherwise.
\<close>

definition detectType :: "platform \<Rightarrow> cell list \<Rightarrow> string \<times> string list" where
  "detectType p nonNull =
     (if numCount nonNull > 0 \<and> strCount nonNull = 0 then (''Numeric'', [])
      else if real (dateCount p nonNull) > real (length nonNull) * 0.8 then
        (''Date'', if dateCount p nonNull < length nonNull
                   then [''Invalid Date Formats Detected''] else [])
      else if numCount nonNull > 0 \<and> strCount nonNull > 0 then
        (''Mixed'', [''Mixed Data Types (Numbers & Text)''])
      else (''Categorical'', []))"

text \<open>The numeric statistics and the issue they may add.\<close>

definition numericPart :: "platform \<Rightarrow> string \<Rightarrow> cell list \<Rightarrow> NumericStats option \<times> string list" where
  "numericPart p type nonNull =
     (if type = ''Numeric'' \<or> (type = ''Mixed'' \<and> numCount nonNull > 0) then
        (let numericValues = numbersOf nonNull
         in if length numericValues > 0 then
              (let sum = foldl (\<lambda>a b. plus64 a (Finite b)) (Finite 0) numericValues;
                   mean = divide64 sum (Finite (real (length numericValues)));
                   min = Min (set numericValues);
                   max = Max (set numericValues);
                   median = getMedian numericValues;
                   stdDev = getStandardDeviation p numericValues mean;
                   sorted = sort numericValues;
                   q1 = orZero (elemAt sorted (nat \<lfloor>real (length sorted) * 0.25\<rfloor>));
                   q3 = orZero (elemAt sorted (nat \<lfloor>real (length sorted) * 0.75\<rfloor>));
                   outliers = getOutlierCount numericValues q1 q3
               in (Some \<lparr>ns_mean = mean, ns_median = median,
                         ns_mode = getMode p numericValues,
                         ns_min = min, ns_max = max, ns_stdDev = stdDev,
                         ns_outliers = outliers\<rparr>,
                   if outliers > 0 then [''Potential Outliers ('' @ decimal outliers @ '')'']
                   else []))
            else (None, []))
      else (None, []))"

text \<open>
  The date statistics: the time values of the non-missing values that convert, sorted
  ascending; \<^verbatim>\<open>toISOString().split('T')[0]\<close> is the text before the first \<^verbatim>\<open>T\<close>.
\<close>

definition dateValues :: "platform \<Rightarrow> cell list \<Rightarrow> int list" where
  "dateValues p nonNull = sort (List.map_filter (\<lambda>v. Date_parse p (StringOf p v)) nonNull)"

definition isoDay :: "platform \<Rightarrow> int \<Rightarrow> string" where
  "isoDay p t = takeWhile (\<lambda>c. c \<noteq> CHR ''T'') (Date_toISOString p t)"

definition datePart :: "platform \<Rightarrow> string \<Rightarrow> cell list \<Rightarrow> DateStats option" where
  "datePart p type nonNull =
     (if type = ''Date'' then
        (let ds = dateValues p nonNull
         in if length ds > 0 then
              Some \<lparr>ds_min = isoDay p (ds ! 0), ds_max = isoDay p (ds ! (length ds - 1)),
                    ds_invalidCount = length nonNull - length ds\<rparr>
            else None)
      else None)"

definition analyzeColumn :: "platform \<Rightarrow> DataRow list \<Rightarrow> string \<Rightarrow> ColumnAnalysis" where
  "analyzeColumn p data col =
     (let values = columnValues data col;
          nonNull = filter nonMissing values;
          missing = length values - length nonNull;
          unique = setSize values;
          detected = detectType p nonNull;
          type = fst detected;
          numeric = numericPart p type nonNull;
          dateStats = datePart p type nonNull
      in \<lparr>ca_name = col, ca_missing = missing, ca_unique = unique, ca_type = type,
          ca_issues = snd detected @ snd numeric,
          ca_numericStats = fst numeric, ca_dateStats = dateStats\<rparr>)"

definition generateGlobalAnalysis :: "platform \<Rightarrow> DataRow list \<Rightarrow> string list \<Rightarrow> GlobalAnalysisReport" where
  "generateGlobalAnalysis p data cols =
     \<lparr>totalRows = length data, totalCols = length cols,
      duplicateRows = countDuplicateRows data,
      columns = foldl (\<lambda>colReports col. colReports(col \<mapsto> analyzeColumn p data col)) Map.empty cols\<rparr>"

section \<open>An example platform and example tables\<close>

text \<open>
  The platform functions on the inputs of the examples below: the two ISO dates of the
  specification's date column with their time values, natural numbers and their negatives
  rendered in decimal, and texts of decimal digits, with or without a minus sign, read as
  numbers. On these inputs every JavaScript engine gives the same results; the other
  inputs do not occur in the examples. \<^verbatim>\<open>Math.pow\<close> is taken at the exponent 2, where the
  source calls it, as the rounded square, and \<^verbatim>\<open>Math.sqrt\<close> as the rounded square root;
  no example evaluates them.
\<close>

definition examplePlatform :: platform where
  "examplePlatform =
     \<lparr>Date_parse = (\<lambda>s. if s = ''2023-01-01'' then Some 1672531200000
                         else if s = ''2023-02-01'' then Some 1675209600000 else None),
      Date_toISOString = (\<lambda>t. if t = 1672531200000 then ''2023-01-01T00:00:00.000Z''
                               else if t = 1675209600000 then ''2023-02-01T00:00:00.000Z''
                               else []),
      Number_toString = (\<lambda>x. if x < 0 then CHR ''-'' # decimal (nat \<lfloor>- x\<rfloor>)
                              else decimal (nat \<lfloor>x\<rfloor>)),
      String_toNumber = (\<lambda>s. if s \<noteq> [] \<and> list_all isDigit s then Some (real (decVal s))
                              else if s \<noteq> [] \<and> hd s = CHR ''-'' \<and> tl s \<noteq> []
                                      \<and> list_all isDigit (tl s)
                              then Some (- real (decVal (tl s)))
                              else None),
      Math_pow = (\<lambda>a b. times64 a a),
      Math_sqrt = (\<lambda>a. case a of Finite x \<Rightarrow> if x < 0 then NaN else binary64 (sqrt x)
                             | PosInf \<Rightarrow> PosInf | _ \<Rightarrow> NaN)\<rparr>"

definition exampleTable :: "DataRow list" where
  "exampleTable =
     [[(''a'', Num 1), (''b'', Str ''x'')],
      [(''a'', Str []), (''b'', Null)],
      [(''b'', Str ''x'')]]"

text \<open>A table of one column \<^verbatim>\<open>c\<close>, and the non-missing values of a column.\<close>

definition columnTable :: "cell list \<Rightarrow> DataRow list" where
  "columnTable vs = map (\<lambda>v. [(''c'', v)]) vs"

abbreviation nonNullOf :: "DataRow list \<Rightarrow> string \<Rightarrow> cell list" where
  "nonNullOf data col \<equiv> filter nonMissing (columnValues data col)"






text \<open>
  The duplicate count in the words of the specification, to compare with the code: a row
  is a duplicate when its content, the keys with their values whatever the order of the
  keys, is that of an earlier row.
\<close>

definition sameContent :: "DataRow \<Rightarrow> DataRow \<Rightarrow> bool" where
  "sameContent r1 r2 = (set r1 = set r2)"

fun spec_countAfter :: "DataRow list \<Rightarrow> DataRow list \<Rightarrow> nat" where
  "spec_countAfter earlier [] = 0"
| "spec_countAfter earlier (row # rows) =
     (if \<exists>r \<in> set earlier. sameContent r row then 1 else 0)
     + spec_countAfter (earlier @ [row]) rows"

definition spec_duplicateRows :: "DataRow list \<Rightarrow> nat" where
  "spec_duplicateRows data = spec_countAfter [] data"

text \<open>
  Two rows with the same members in a different key order, and the table of the
  specification's duplicate scenario.
\<close>

definition keyOrderTable :: "DataRow list" where
  "keyOrderTable = [[(''a'', Num 1), (''b'', Num 2)], [(''b'', Num 2), (''a'', Num 1)]]"

definition duplicateTable :: "DataRow list" where
  "duplicateTable =
     [[(''a'', Num 1), (''b'', Num 2)], [(''a'', Num 1), (''b'', Num 2)], [(''a'', Num 3), (''b'', Num 4)]]"

text \<open>A column of two dates, the later one first, and an empty cell.\<close>

definition dateColumn :: "cell list" where
  "dateColumn = [Str ''2023-02-01'', Null, Str ''2023-01-01'']"

text \<open>
  The shape \<^verbatim>\<open>YYYY-MM-DD\<close> of a calendar date, and the shape
  \<^verbatim>\<open>YYYY-MM-DDTHH:mm:ss.sssZ\<close> in which \<^verbatim>\<open>toISOString\<close> renders, in UTC, a date of the years
  0 to 9999. For the other years \<^verbatim>\<open>toISOString\<close> writes the year with a sign and six digits.
\<close>

definition isYMD :: "string \<Rightarrow> bool" where
  "isYMD s = (length s = 10 \<and> list_all isDigit (take 4 s) \<and> s ! 4 = CHR ''-''
              \<and> list_all isDigit (take 2 (drop 5 s)) \<and> s ! 7 = CHR ''-''
              \<and> list_all isDigit (drop 8 s))"

definition isISODateTime :: "string \<Rightarrow> bool" where
  "isISODateTime s = (length s = 24 \<and> isYMD (take 10 s) \<and> s ! 10 = CHR ''T''
                      \<and> list_all isDigit (take 2 (drop 11 s)) \<and> s ! 13 = CHR '':''
                      \<and> list_all isDigit (take 2 (drop 14 s)) \<and> s ! 16 = CHR '':''
                      \<and> list_all isDigit (take 2 (drop 17 s)) \<and> s ! 19 = CHR ''.''
                      \<and> list_all isDigit (take 3 (drop 20 s)) \<and> s ! 23 = CHR ''Z'')"

text \<open>
  The first instant of the year 10000, 253402300800000 milliseconds after the epoch, in
  the expanded-year form of the ISO format, which \<^verbatim>\<open>Date.parse\<close> reads and \<^verbatim>\<open>toISOString\<close>
  writes; and a column holding that one date.
\<close>

definition expandedYearPlatform :: platform where
  "expandedYearPlatform =
     examplePlatform
       \<lparr>Date_parse := (\<lambda>s. if s = ''+010000-01-01T00:00:00.000Z'' then Some 253402300800000
                           else None),
        Date_toISOString := (\<lambda>t. if t = 253402300800000 then ''+010000-01-01T00:00:00.000Z''
                                  else [])\<rparr>"

definition expandedYearColumn :: "cell list" where
  "expandedYearColumn = [Str ''+010000-01-01T00:00:00.000Z'']"




text \<open>The value converts to a date: \<^verbatim>\<open>!isNaN(new Date(String(v)).getTime())\<close>.\<close>

abbreviation converts :: "platform \<Rightarrow> cell \<Rightarrow> bool" where
  "converts p v \<equiv> Date_parse p (StringOf p v) \<noteq> None"

text \<open>
  The distinct elements of a list in the order of their first occurrence, the greatest
  number of occurrences of an element, and the keys \<^verbatim>\<open>String(v)\<close> of the values.
\<close>

definition firstOccurrences :: "'a list \<Rightarrow> 'a list" where
  "firstOccurrences xs = rev (remdups (rev xs))"

definition maxFrequency :: "'a list \<Rightarrow> nat" where
  "maxFrequency ks = (if ks = [] then 0 else Max (set (map (count_list ks) ks)))"

abbreviation keysOf :: "platform \<Rightarrow> real list \<Rightarrow> string list" where
  "keysOf p vs \<equiv> map (\<lambda>v. StringOf p (Num v)) vs"

text \<open>
  The mode in the words of the specification, to compare with the code: the first three
  keys of maximal frequency in first-encountered order, each converted back.
\<close>

definition spec_mode :: "platform \<Rightarrow> real list \<Rightarrow> cell list" where
  "spec_mode p vs =
     take 3 (map (numberOrText p)
       (filter (\<lambda>k. count_list (keysOf p vs) k = maxFrequency (keysOf p vs))
          (firstOccurrences (keysOf p vs))))"

text \<open>
  The counts object after the keys \<open>ks\<close>: one property per distinct key, in the order of
  first occurrence, holding the number of occurrences.
\<close>

definition countsOf :: "string list \<Rightarrow> (string \<times> nat) list" where
  "countsOf ks = map (\<lambda>k. (k, count_list ks k)) (firstOccurrences ks)"

section \<open>Binary64 rounding\<close>

lemma roundEven_bounds: "\<lfloor>y\<rfloor> \<le> roundEven y" "roundEven y \<le> \<lfloor>y\<rfloor> + 1"
  by (simp_all add: roundEven_def Let_def)

lemma roundEven_of_int [simp]: "roundEven (of_int k) = k"
  by (simp add: roundEven_def)

lemma roundEven_mono: "y \<le> z \<Longrightarrow> roundEven y \<le> roundEven z"
proof -
  assume yz: "y \<le> z"
  then have fl: "\<lfloor>y\<rfloor> \<le> \<lfloor>z\<rfloor>" by (rule floor_mono)
  show ?thesis
  proof (cases "\<lfloor>y\<rfloor> = \<lfloor>z\<rfloor>")
    case True
    with yz show ?thesis by (auto simp: roundEven_def Let_def)
  next
    case False
    with fl have "\<lfloor>y\<rfloor> + 1 \<le> \<lfloor>z\<rfloor>" by simp
    with roundEven_bounds(2) [of y] roundEven_bounds(1) [of z] show ?thesis by linarith
  qed
qed

lemma roundEven_nonneg: "0 \<le> y \<Longrightarrow> 0 \<le> roundEven y"
  using roundEven_mono [of 0 y] roundEven_of_int [of 0] by simp

lemma ulp_pos [simp]: "0 < ulp x"
  by (simp add: ulp_def)

lemma ulp_nonneg [simp]: "0 \<le> ulp x"
  by (simp add: ulp_def)

lemma ulp_neq0 [simp]: "ulp x \<noteq> 0"
  using ulp_pos [of x] by linarith

lemma binadeExp_upper: "x \<noteq> 0 \<Longrightarrow> \<bar>x\<bar> < 2 powr of_int (binadeExp x + 1)"
proof -
  assume "x \<noteq> 0"
  then have pos: "0 < \<bar>x\<bar>" by simp
  have "log 2 \<bar>x\<bar> < of_int (\<lfloor>log 2 \<bar>x\<bar>\<rfloor> + 1)" by linarith
  also have "\<dots> \<le> of_int (binadeExp x + 1)" by (simp add: binadeExp_def)
  finally have "log 2 \<bar>x\<bar> < of_int (binadeExp x + 1)" .
  then show ?thesis using pos by (simp add: log_less_iff)
qed




lemma ulp_times: "2 ^ 53 * ulp x = 2 powr of_int (binadeExp x + 1)"
  "2 ^ 52 * ulp x = 2 powr of_int (binadeExp x)"
proof -
  have p: "(2::real) ^ 53 = 2 powr 53" "(2::real) ^ 52 = 2 powr 52" by simp_all
  have "real_of_int (binadeExp x + 1) = 53 + of_int (binadeExp x - 52)" by simp
  then have "(2::real) powr of_int (binadeExp x + 1) = 2 powr (53 + of_int (binadeExp x - 52))"
    by (rule arg_cong)
  also have "\<dots> = 2 powr 53 * 2 powr of_int (binadeExp x - 52)"
    by (rule powr_add)
  finally show "2 ^ 53 * ulp x = 2 powr of_int (binadeExp x + 1)"
    by (simp only: ulp_def p)
  have "real_of_int (binadeExp x) = 52 + of_int (binadeExp x - 52)" by simp
  then have "(2::real) powr of_int (binadeExp x) = 2 powr (52 + of_int (binadeExp x - 52))"
    by (rule arg_cong)
  also have "\<dots> = 2 powr 52 * 2 powr of_int (binadeExp x - 52)"
    by (rule powr_add)
  finally show "2 ^ 52 * ulp x = 2 powr of_int (binadeExp x)"
    by (simp only: ulp_def p)
qed

lemma roundMag_nonneg: "0 \<le> roundMag x"
proof -
  have "0 \<le> \<bar>x\<bar> / ulp x" by (intro divide_nonneg_nonneg) simp_all
  then have "0 \<le> roundEven (\<bar>x\<bar> / ulp x)" by (rule roundEven_nonneg)
  then show ?thesis by (simp add: roundMag_def)
qed

lemma roundMag_upper: "x \<noteq> 0 \<Longrightarrow> roundMag x \<le> 2 powr of_int (binadeExp x + 1)"
proof -
  assume x: "x \<noteq> 0"
  have "\<bar>x\<bar> < 2 ^ 53 * ulp x"
    using binadeExp_upper [OF x] by (simp only: ulp_times)
  then have "\<bar>x\<bar> / ulp x \<le> 2 ^ 53"
    using ulp_pos [of x] by (simp only: pos_divide_le_eq)
  then have "\<bar>x\<bar> / ulp x \<le> of_int (2 ^ 53)"
    by simp
  then have "roundEven (\<bar>x\<bar> / ulp x) \<le> roundEven (of_int (2 ^ 53))"
    by (rule roundEven_mono)
  then have "roundEven (\<bar>x\<bar> / ulp x) \<le> 2 ^ 53" by (simp only: roundEven_of_int)
  then have "of_int (roundEven (\<bar>x\<bar> / ulp x)) \<le> (2 ^ 53 :: real)"
    by (metis of_int_le_iff of_int_numeral of_int_power)
  then have "roundMag x \<le> 2 ^ 53 * ulp x"
    unfolding roundMag_def by (intro mult_right_mono) simp_all
  then show ?thesis by (simp only: ulp_times)
qed




lemma round64_fixI: "x \<noteq> 0 \<Longrightarrow> \<bar>x\<bar> / ulp x = of_int n \<Longrightarrow> round64 x = x"
proof -
  assume x: "x \<noteq> 0" and n: "\<bar>x\<bar> / ulp x = of_int n"
  have "of_int (roundEven (\<bar>x\<bar> / ulp x)) * ulp x = (\<bar>x\<bar> / ulp x) * ulp x"
    by (simp only: n roundEven_of_int)
  also have "\<dots> = \<bar>x\<bar>" using ulp_pos [of x] by simp
  finally have "round64 x = sgn x * \<bar>x\<bar>" using x by (simp add: round64_def roundMag_def)
  then show ?thesis by (simp add: sgn_mult_abs)
qed

lemma scaled_int_grid:
  assumes x: "x = of_int k * 2 powr of_int t" and k: "k \<noteq> 0" "\<bar>k\<bar> < 2 ^ 53" and t: "- 1074 \<le> t"
  shows "\<exists>n. \<bar>x\<bar> / ulp x = of_int n"
proof -
  have x0: "x \<noteq> 0" using x k(1) by simp
  have ax: "\<bar>x\<bar> = of_int \<bar>k\<bar> * 2 powr of_int t"
    by (simp add: x abs_mult)
  have "real_of_int \<bar>k\<bar> < 2 ^ 53"
    using k(2) by (metis of_int_less_iff of_int_numeral of_int_power)
  then have "\<bar>x\<bar> < 2 ^ 53 * 2 powr of_int t"
    unfolding ax by (intro mult_strict_right_mono) simp_all
  also have "(2::real) ^ 53 * 2 powr of_int t = 2 powr (53 + of_int t)"
    by (simp add: powr_add)
  finally have "log 2 \<bar>x\<bar> < 53 + of_int t"
    using x0 by (simp add: log_less_iff)
  then have "\<lfloor>log 2 \<bar>x\<bar>\<rfloor> < 53 + t"
    by (metis floor_less_iff of_int_add of_int_numeral)
  then have e: "binadeExp x \<le> 52 + t"
    using t by (simp add: binadeExp_def)
  define s where "s = nat (52 + t - binadeExp x)"
  have s: "of_int t = real s + of_int (binadeExp x - 52)"
    using e by (simp add: s_def)
  have "\<bar>x\<bar> = of_int \<bar>k\<bar> * (2 powr real s * ulp x)"
    unfolding ax s ulp_def by (simp only: powr_add)
  also have "(2::real) powr real s = 2 ^ s"
    by (simp add: powr_realpow)
  finally have "\<bar>x\<bar> / ulp x = of_int \<bar>k\<bar> * 2 ^ s"
    using ulp_pos [of x] by simp
  also have "\<dots> = of_int (\<bar>k\<bar> * 2 ^ s)" by simp
  finally show ?thesis by blast
qed

lemma round64_scaled_int:
  assumes "x = of_int k * 2 powr of_int t" "\<bar>k\<bar> < 2 ^ 53" "- 1074 \<le> t"
  shows "round64 x = x"
proof (cases "k = 0")
  case True
  then show ?thesis using assms(1) by (simp add: round64_def)
next
  case False
  from scaled_int_grid [OF assms(1) False assms(2,3)] obtain n where "\<bar>x\<bar> / ulp x = of_int n" ..
  moreover have "x \<noteq> 0" using assms(1) False by simp
  ultimately show ?thesis by (intro round64_fixI)
qed

lemma round64_isDouble: "isDouble x \<Longrightarrow> round64 x = x"
  unfolding isDouble_def using round64_scaled_int by blast

lemma binary64_in_range: "\<bar>round64 x\<bar> < 2 ^ 1024 \<Longrightarrow> binary64 x = Finite (round64 x)"
proof -
  assume "\<bar>round64 x\<bar> < 2 ^ 1024"
  then have "\<not> 2 ^ 1024 \<le> round64 x" and "\<not> round64 x \<le> - (2 ^ 1024)" by linarith+
  then show ?thesis
    by (simp only: binary64_def Let_def if_False)
qed

lemma binary64_isDouble: "isDouble x \<Longrightarrow> binary64 x = Finite x"
proof -
  assume d: "isDouble x"
  then have "\<bar>x\<bar> < 2 ^ 1024" by (auto simp: isDouble_def)
  then show ?thesis
    using binary64_in_range [of x] by (simp only: round64_isDouble [OF d])
qed






subsection \<open>Rounding by scaling to an integer\<close>

lemma binadeExp_eqI:
  assumes "2 powr of_int e \<le> \<bar>x\<bar>" and "\<bar>x\<bar> < 2 powr of_int (e + 1)" and "- 1022 \<le> e"
  shows "binadeExp x = e"
proof -
  have "(0::real) < 2 powr of_int e" by simp
  with assms(1) have pos: "0 < \<bar>x\<bar>" by linarith
  have "of_int e \<le> log 2 \<bar>x\<bar>"
    using assms(1) pos by (simp add: le_log_iff)
  moreover have "log 2 \<bar>x\<bar> < of_int e + 1"
    using assms(2) pos by (simp add: log_less_iff)
  ultimately have "\<lfloor>log 2 \<bar>x\<bar>\<rfloor> = e"
    by (intro floor_unique)
  then show ?thesis
    using assms(3) by (simp add: binadeExp_def)
qed

lemma binary64_grid:
  assumes lo: "2 ^ 52 \<le> \<bar>x\<bar> / 2 powr of_int t" and hi: "\<bar>x\<bar> / 2 powr of_int t < 2 ^ 53"
      and t: "- 1074 \<le> t" "t < 971"
  shows "binary64 x = Finite (sgn x * (of_int (roundEven (\<bar>x\<bar> / 2 powr of_int t)) * 2 powr of_int t))"
proof -
  let ?u = "(2::real) powr of_int t"
  have u: "0 < ?u" by simp
  have e1: "(2::real) powr of_int (t + 52) = 2 ^ 52 * ?u"
  proof -
    have "real_of_int (t + 52) = 52 + of_int t" by simp
    then have "(2::real) powr of_int (t + 52) = 2 powr (52 + of_int t)" by (rule arg_cong)
    also have "\<dots> = 2 powr 52 * ?u" by (rule powr_add)
    finally show ?thesis by simp
  qed
  have e2: "(2::real) powr of_int (t + 52 + 1) = 2 ^ 53 * ?u"
  proof -
    have "real_of_int (t + 52 + 1) = 53 + of_int t" by simp
    then have "(2::real) powr of_int (t + 52 + 1) = 2 powr (53 + of_int t)" by (rule arg_cong)
    also have "\<dots> = 2 powr 53 * ?u" by (rule powr_add)
    finally show ?thesis by simp
  qed
  have lo': "2 powr of_int (t + 52) \<le> \<bar>x\<bar>"
    using lo u unfolding e1 by (simp only: pos_le_divide_eq)
  have hi': "\<bar>x\<bar> < 2 powr of_int (t + 52 + 1)"
    using hi u unfolding e2 by (simp only: pos_divide_less_eq)
  have b: "binadeExp x = t + 52"
    using lo' hi' t(1) by (intro binadeExp_eqI) simp_all
  have ux: "ulp x = ?u"
    by (simp add: ulp_def b)
  have x0: "x \<noteq> 0"
    using lo' u by (smt (verit) powr_gt_zero)
  have rm: "roundMag x = of_int (roundEven (\<bar>x\<bar> / ?u)) * ?u"
    by (simp only: roundMag_def ux)
  have "roundMag x \<le> 2 powr of_int (t + 52 + 1)"
    using roundMag_upper [OF x0] by (simp only: b)
  also have "\<dots> \<le> 2 powr 1023"
    using t(2) by (intro powr_mono) simp_all
  also have "\<dots> < (2::real) ^ 1024"
    by simp
  finally have "roundMag x < 2 ^ 1024" .
  moreover have "0 \<le> roundMag x" by (rule roundMag_nonneg)
  moreover have "\<bar>round64 x\<bar> = \<bar>roundMag x\<bar>"
    using x0 by (simp add: round64_def abs_mult)
  ultimately have "\<bar>round64 x\<bar> < 2 ^ 1024" by simp
  then have "binary64 x = Finite (round64 x)" by (rule binary64_in_range)
  then show ?thesis
    using x0 by (simp only: round64_def rm if_False)
qed


lemma binary64_scaled_up:
  assumes "2 ^ 52 \<le> \<bar>x\<bar> / 2 ^ j" and "\<bar>x\<bar> / 2 ^ j < 2 ^ 53" and "j < 971"
  shows "binary64 x = Finite (sgn x * (of_int (roundEven (\<bar>x\<bar> / 2 ^ j)) * 2 ^ j))"
proof -
  have p: "(2::real) powr of_int (int j) = 2 ^ j"
    by (simp add: powr_realpow)
  from binary64_grid [of x "int j", unfolded p] assms
  show ?thesis by simp
qed

subsection \<open>Values that binary64 represents exactly\<close>

lemma isDouble_dyadic:
  assumes "\<bar>k\<bar> < 2 ^ 53" and "j \<le> 1074"
  shows "isDouble (of_int k / 2 ^ j)"
proof -
  have p: "(2::real) powr of_int (- int j) = 1 / 2 ^ j"
    by (simp add: powr_minus powr_realpow divide_simps)
  have x: "(of_int k / 2 ^ j :: real) = of_int k * 2 powr of_int (- int j)"
    unfolding p by simp
  have "\<bar>of_int k / 2 ^ j :: real\<bar> = \<bar>of_int k\<bar> / 2 ^ j" by simp
  also have "\<dots> \<le> \<bar>of_int k\<bar> / 1"
    by (intro divide_left_mono) simp_all
  also have "\<dots> = \<bar>of_int k\<bar>" by simp
  also have "\<bar>of_int k :: real\<bar> < 2 ^ 53"
    using assms(1) by (metis of_int_abs of_int_less_numeral_power_cancel_iff)
  also have "\<dots> < (2::real) ^ 1024" by simp
  finally have r: "\<bar>of_int k / 2 ^ j :: real\<bar> < 2 ^ 1024" .
  show ?thesis
    unfolding isDouble_def
    using x assms r by (intro exI [of _ k] exI [of _ "- int j"]) simp
qed

lemma binary64_dyadic:
  "\<bar>k\<bar> < 2 ^ 53 \<Longrightarrow> j \<le> 1074 \<Longrightarrow> binary64 (of_int k / 2 ^ j) = Finite (of_int k / 2 ^ j)"
  by (rule binary64_isDouble) (rule isDouble_dyadic)



lemma binary64_0: "binary64 0 = Finite 0"
  using binary64_dyadic [of 0 0] by simp

lemma binary64_1: "binary64 1 = Finite 1"
  using binary64_dyadic [of 1 0] by simp

lemma binary64_numeral: "numeral n < (2::int) ^ 53 \<Longrightarrow> binary64 (numeral n) = Finite (numeral n)"
  using binary64_dyadic [of "numeral n" 0] by simp

lemma binary64_neg_numeral:
  "numeral n < (2::int) ^ 53 \<Longrightarrow> binary64 (- numeral n) = Finite (- numeral n)"
  using binary64_dyadic [of "- numeral n" 0] by simp

lemma binary64_half_numeral:
  "numeral n < (2::int) ^ 53 \<Longrightarrow> binary64 (numeral n / 2) = Finite (numeral n / 2)"
  using binary64_dyadic [of "numeral n" 1] by simp

lemma binary64_neg_half_numeral:
  "numeral n < (2::int) ^ 53 \<Longrightarrow> binary64 (- (numeral n / 2)) = Finite (- (numeral n / 2))"
  using binary64_dyadic [of "- numeral n" 1] by simp

lemma binary64_half: "binary64 (1 / 2) = Finite (1 / 2)" "binary64 (- (1 / 2)) = Finite (- (1 / 2))"
  using binary64_dyadic [of 1 1] binary64_dyadic [of "- 1" 1] by simp_all

lemmas binary64_simps = binary64_0 binary64_1 binary64_numeral binary64_neg_numeral
  binary64_half_numeral binary64_neg_half_numeral binary64_half minus64_def

lemma binary64_examples:
  "plus64 (Finite 1) (Finite 2) = Finite 3"
  "times64 (Finite 1.5) (Finite 3) = Finite 4.5"
  "minus64 (Finite 2) (Finite 4.5) = Finite (- 2.5)"
  "divide64 (Finite 50) (Finite 2) = Finite 25"
  "divide64 (Finite 3) (Finite 2) = Finite 1.5"
  by (simp_all add: binary64_simps)

section \<open>Shared lemmas\<close>

lemma setSize_card: "setSize xs = card (set xs)"
  by (simp add: setSize_def length_remdups_card_conv)

lemma foldl_colReports:
  "foldl (\<lambda>m c. m(c \<mapsto> f c)) m0 cs c = (if c \<in> set cs then Some (f c) else m0 c)"
  by (induction cs arbitrary: m0) auto

lemma columns_generateGlobalAnalysis:
  "columns (generateGlobalAnalysis p data cols) col =
     (if col \<in> set cols then Some (analyzeColumn p data col) else None)"
  by (simp add: generateGlobalAnalysis_def foldl_colReports)

lemma length_filter_compl:
  "length xs - length (filter P xs) = length (filter (\<lambda>x. \<not> P x) xs)"
  using sum_length_filter_compl [of P xs] by simp

lemma ca_missing_analyzeColumn:
  "ca_missing (analyzeColumn p data col) =
     length (columnValues data col) - length (filter nonMissing (columnValues data col))"
  by (simp add: analyzeColumn_def Let_def)

lemma cs_missing_calculateColumnStats:
  "cs_missing (calculateColumnStats p data col) =
     length (columnValues data col) - length (filter nonMissing (columnValues data col))"
  by (simp add: calculateColumnStats_def Let_def)

lemma cs_count_calculateColumnStats:
  "cs_count (calculateColumnStats p data col) = length data"
  by (simp add: calculateColumnStats_def Let_def columnValues_def)

lemma ca_unique_analyzeColumn:
  "ca_unique (analyzeColumn p data col) = setSize (columnValues data col)"
  by (simp add: analyzeColumn_def Let_def)

lemma cs_unique_calculateColumnStats:
  "cs_unique (calculateColumnStats p data col) = setSize (columnValues data col)"
  by (simp add: calculateColumnStats_def Let_def)

lemma card_split_missing:
  "card (set vs) = card (set (filter nonMissing vs)) + card {v \<in> set vs. \<not> nonMissing v}"
proof -
  have "set vs = set (filter nonMissing vs) \<union> {v \<in> set vs. \<not> nonMissing v}"
    by auto
  moreover have "set (filter nonMissing vs) \<inter> {v \<in> set vs. \<not> nonMissing v} = {}"
    by auto
  ultimately show ?thesis
    by (metis (no_types, lifting) List.finite_set card_Un_disjoint finite_Un)
qed

lemma columnValues_columnTable [simp]: "columnValues (columnTable vs) ''c'' = vs"
  by (simp add: columnValues_def columnTable_def getCell_def comp_def)

lemma ca_type_analyzeColumn:
  "ca_type (analyzeColumn p data col) = fst (detectType p (nonNullOf data col))"
  by (simp add: analyzeColumn_def Let_def)

lemma ca_issues_analyzeColumn:
  "ca_issues (analyzeColumn p data col) =
     snd (detectType p (nonNullOf data col))
     @ snd (numericPart p (fst (detectType p (nonNullOf data col))) (nonNullOf data col))"
  by (simp add: analyzeColumn_def Let_def)

lemma numericPart_issues:
  "snd (numericPart p t xs) = [] \<or>
   (\<exists>k>0. snd (numericPart p t xs) = [''Potential Outliers ('' @ decimal k @ '')''])"
  by (auto simp: numericPart_def Let_def)

lemma numericPart_no_date_issue:
  "''Invalid Date Formats Detected'' \<notin> set (snd (numericPart p t xs))"
  using numericPart_issues [of p t xs] by auto

lemma numericPart_no_mixed_issue:
  "''Mixed Data Types (Numbers & Text)'' \<notin> set (snd (numericPart p t xs))"
  using numericPart_issues [of p t xs] by auto

lemma fst_detectType:
  "fst (detectType p xs) =
     (if numCount xs > 0 \<and> strCount xs = 0 then ''Numeric''
      else if real (dateCount p xs) > real (length xs) * 0.8 then ''Date''
      else if numCount xs > 0 \<and> strCount xs > 0 then ''Mixed''
      else ''Categorical'')"
  by (simp add: detectType_def)

lemma date_issue_detectType:
  "(''Invalid Date Formats Detected'' \<in> set (snd (detectType p xs))) =
     (fst (detectType p xs) = ''Date'' \<and> dateCount p xs < length xs)"
  by (simp add: detectType_def)

lemma mixed_issue_detectType:
  "(''Mixed Data Types (Numbers & Text)'' \<in> set (snd (detectType p xs))) =
     (fst (detectType p xs) = ''Mixed'')"
  by (simp add: detectType_def)

lemma ex_numeric: "ca_type (analyzeColumn p (columnTable [Num 1, Num 2, Num 3]) ''c'') = ''Numeric''"
  by (simp add: ca_type_analyzeColumn fst_detectType nonMissing_def numCount_def strCount_def)

lemma ex_date:
  "Date_parse p ''2023-01-01'' \<noteq> None \<Longrightarrow> Date_parse p ''2023-02-01'' \<noteq> None \<Longrightarrow>
   ca_type (analyzeColumn p (columnTable [Str ''2023-01-01'', Str ''2023-02-01'']) ''c'') = ''Date''
   \<and> ca_issues (analyzeColumn p (columnTable [Str ''2023-01-01'', Str ''2023-02-01'']) ''c'') = []"
  by (simp add: ca_type_analyzeColumn ca_issues_analyzeColumn detectType_def nonMissing_def numCount_def strCount_def
      dateCount_def looksLikeDate_def numericPart_def)

lemma ex_mixed:
  "ca_type (analyzeColumn p (columnTable [Num 1, Str ''a'', Num 2]) ''c'') = ''Mixed''
   \<and> ca_issues (analyzeColumn p (columnTable [Num 1, Str ''a'', Num 2]) ''c'') = [''Mixed Data Types (Numbers & Text)'']"
  by (simp add: ca_type_analyzeColumn ca_issues_analyzeColumn detectType_def nonMissing_def numCount_def strCount_def
      dateCount_def looksLikeDate_def numericPart_def Let_def getOutlierCount_def elemAt_def orZero_def
      binary64_simps)

lemma ex_categorical:
  "ca_type (analyzeColumn p (columnTable [Str ''a'', Str ''b'', Str ''a'']) ''c'') = ''Categorical''
  \<and> ca_issues (analyzeColumn p (columnTable [Str ''a'', Str ''b'', Str ''a'']) ''c'') = []"
  by (simp add: ca_type_analyzeColumn ca_issues_analyzeColumn detectType_def nonMissing_def numCount_def strCount_def
      dateCount_def looksLikeDate_def numericPart_def Let_def)



lemma floor_half: "nat \<lfloor>real n / 2\<rfloor> = n div 2"
proof -
  have "real n / 2 = real n / real 2" by simp
  then show ?thesis by (simp only: floor_divide_of_nat_eq nat_int)
qed

lemma orZero_Some [simp]: "orZero (Some x) = x"
  by (simp add: orZero_def)

lemma orZero_None [simp]: "orZero None = 0"
  by (simp add: orZero_def)



lemma getMedian_sorted:
  "xs \<noteq> [] \<Longrightarrow> getMedian xs =
     (if odd (length xs) then Finite (sort xs ! (length xs div 2))
      else divide64 (plus64 (Finite (sort xs ! (length xs div 2 - 1)))
                            (Finite (sort xs ! (length xs div 2))))
             (Finite 2))"
  unfolding getMedian_def Let_def floor_half by (simp add: odd_iff_mod_2_eq_one)



lemma lessEq64_Finite [simp]: "lessEq64 (Finite x) (Finite y) = (x \<le> y)"
  by (auto simp: lessEq64_def)






lemma nonMissing_simps [simp]:
  "nonMissing (Num x)" "nonMissing (Str s) = (s \<noteq> [])" "\<not> nonMissing Null" "\<not> nonMissing Undefined"
  by (simp_all add: nonMissing_def)

lemma looksLikeDate_example [simp]: "looksLikeDate examplePlatform (Str ''2023-01-01'')"
  "\<not> looksLikeDate p (Num x)"
  by (simp_all add: looksLikeDate_def examplePlatform_def)







lemma ex_large:
  "getMedian [1, 2 ^ 53] = Finite (2 ^ 52)"
  using binary64_scaled_up [of "2 ^ 53 + 1" 1]
  by (simp add: getMedian_sorted roundEven_def binary64_simps)

lemma numbersOf_replicate_Str [simp]: "numbersOf (replicate n (Str s)) = []"
  by (induction n) simp_all






lemma cs_type_calculateColumnStats:
  "cs_type (calculateColumnStats p data col) =
     (if nonNullOf data col \<noteq> [] \<and> list_all isNumber (nonNullOf data col)
      then ''Numeric'' else ''Categorical'')"
  by (simp add: calculateColumnStats_def Let_def)



lemma sorted_first_Min:
  fixes ys :: "'a::linorder list"
  assumes "sorted ys" and "ys \<noteq> []"
  shows "ys ! 0 = Min (set ys)"
proof (rule Min_eqI [symmetric])
  show "finite (set ys)" by simp
  show "ys ! 0 \<in> set ys" using assms(2) by simp
  fix y assume "y \<in> set ys"
  then obtain i where "i < length ys" and "ys ! i = y"
    by (auto simp: in_set_conv_nth)
  with assms(1) show "ys ! 0 \<le> y"
    using sorted_nth_mono [of ys 0 i] by simp
qed

lemma sorted_last_Max:
  fixes ys :: "'a::linorder list"
  assumes "sorted ys" and "ys \<noteq> []"
  shows "ys ! (length ys - 1) = Max (set ys)"
proof (rule Max_eqI [symmetric])
  show "finite (set ys)" by simp
  show "ys ! (length ys - 1) \<in> set ys" using assms(2) by simp
  fix y assume "y \<in> set ys"
  then obtain i where "i < length ys" and "ys ! i = y"
    by (auto simp: in_set_conv_nth)
  with assms(1) show "y \<le> ys ! (length ys - 1)"
    using sorted_nth_mono [of ys i "length ys - 1"] by auto
qed

lemma calculateColumnStats_categorical:
  assumes "cs_type (calculateColumnStats p data col) \<noteq> ''Numeric''"
  shows "cs_type (calculateColumnStats p data col) = ''Categorical''"
    and "cs_min (calculateColumnStats p data col) =
           (if nonNullOf data col = [] then None
            else Some (Str (Min (set (map (StringOf p) (nonNullOf data col))))))"
    and "cs_max (calculateColumnStats p data col) =
           (if nonNullOf data col = [] then None
            else Some (Str (Max (set (map (StringOf p) (nonNullOf data col))))))"
proof -
  let ?xs = "nonNullOf data col"
  let ?ss = "map (StringOf p) ?xs"
  have cat: "\<not> (?xs \<noteq> [] \<and> list_all isNumber ?xs)"
    using assms by (simp add: cs_type_calculateColumnStats split: if_splits)
  then show "cs_type (calculateColumnStats p data col) = ''Categorical''"
    by (simp add: cs_type_calculateColumnStats)
  have mn: "sort ?ss ! 0 = Min (set ?ss)" if "?xs \<noteq> []"
  proof -
    have "length (sort ?ss) = length ?xs" by simp
    then have "sort ?ss \<noteq> []" using that by (metis length_0_conv)
    moreover have "sorted (sort ?ss)" and "set (sort ?ss) = set ?ss"
      by (simp_all del: set_map set_filter)
    ultimately show ?thesis using sorted_first_Min [of "sort ?ss"] by simp
  qed
  have mx: "sort (sort ?ss) ! (length ?xs - 1) = Max (set ?ss)" if "?xs \<noteq> []"
  proof -
    have len: "length (sort (sort ?ss)) = length ?xs" by simp
    then have "sort (sort ?ss) \<noteq> []" using that by (metis length_0_conv)
    moreover have "sorted (sort (sort ?ss))" and "set (sort (sort ?ss)) = set ?ss"
      by (simp_all del: set_map set_filter)
    ultimately show ?thesis using sorted_last_Max [of "sort (sort ?ss)"] len by simp
  qed
  show "cs_min (calculateColumnStats p data col) =
           (if ?xs = [] then None else Some (Str (Min (set ?ss))))"
    using cat mn unfolding calculateColumnStats_def Let_def
    by (auto simp: elemAt_def)
  show "cs_max (calculateColumnStats p data col) =
           (if ?xs = [] then None else Some (Str (Max (set ?ss))))"
    using cat mx unfolding calculateColumnStats_def Let_def
    by (auto simp: elemAt_def)
qed

lemma earlier_rows_snoc_old:
  "filter (\<lambda>i. \<exists>j<i. f ((xs @ [x]) ! j) = f ((xs @ [x]) ! i)) [0..<length xs]
     = filter (\<lambda>i. \<exists>j<i. f (xs ! j) = f (xs ! i)) [0..<length xs]"
proof (rule filter_cong [OF refl])
  fix i assume "i \<in> set [0..<length xs]"
  then have i: "i < length xs" by simp
  have a: "(xs @ [x]) ! j = xs ! j" if "j < i" for j
    using that i by (simp add: nth_append)
  have b: "(xs @ [x]) ! i = xs ! i"
    using i by (simp add: nth_append)
  show "(\<exists>j<i. f ((xs @ [x]) ! j) = f ((xs @ [x]) ! i)) = (\<exists>j<i. f (xs ! j) = f (xs ! i))"
    unfolding b using a by auto
qed

lemma earlier_rows_snoc_new:
  "(\<exists>j<length xs. f ((xs @ [x]) ! j) = f x) = (f x \<in> f ` set xs)"
proof
  assume "\<exists>j<length xs. f ((xs @ [x]) ! j) = f x"
  then obtain j where j: "j < length xs" and e: "f ((xs @ [x]) ! j) = f x"
    by blast
  from j e have "f (xs ! j) = f x" by (simp add: nth_append)
  moreover from j have "xs ! j \<in> set xs" by simp
  ultimately show "f x \<in> f ` set xs" by (metis imageI)
next
  assume "f x \<in> f ` set xs"
  then obtain y where y: "y \<in> set xs" and e: "f x = f y" by blast
  from y obtain j where j: "j < length xs" and "xs ! j = y"
    by (auto simp: in_set_conv_nth)
  with e have "f ((xs @ [x]) ! j) = f x"
    by (simp add: nth_append)
  with j show "\<exists>j<length xs. f ((xs @ [x]) ! j) = f x" by blast
qed

lemma foldl_scanRow:
  "foldl scanRow ({}, 0) data =
     (JSON_stringify ` set data,
      length (filter (\<lambda>i. \<exists>j<i. JSON_stringify (data ! j) = JSON_stringify (data ! i))
                [0..<length data]))"
proof (induction data rule: rev_induct)
  case Nil
  show ?case by simp
next
  case (snoc x xs)
  show ?case
    using snoc.IH
    by (simp add: scanRow_def Let_def earlier_rows_snoc_old earlier_rows_snoc_new insert_absorb)
qed

lemma countDuplicateRows_eq:
  "countDuplicateRows data =
     length (filter (\<lambda>i. \<exists>j<i. JSON_stringify (data ! j) = JSON_stringify (data ! i))
               [0..<length data])"
  by (simp add: countDuplicateRows_def foldl_scanRow)

lemma card_texts_le: "card (f ` set xs) \<le> length xs"
  by (metis card_image_le card_length le_trans List.finite_set)

lemma foldl_scanRow_distinct:
  "foldl scanRow ({}, 0) data =
     (JSON_stringify ` set data, length data - card (JSON_stringify ` set data))"
proof (induction data rule: rev_induct)
  case Nil
  show ?case by simp
next
  case (snoc x xs)
  have le: "card (JSON_stringify ` set xs) \<le> length xs"
    by (rule card_texts_le)
  show ?case
  proof (cases "JSON_stringify x \<in> JSON_stringify ` set xs")
    case True
    then show ?thesis
      using snoc.IH le by (simp add: scanRow_def Let_def insert_absorb Suc_diff_le)
  next
    case False
    then show ?thesis
      using snoc.IH by (simp add: scanRow_def Let_def)
  qed
qed

lemma countDuplicateRows_distinct:
  "countDuplicateRows data + card (JSON_stringify ` set data) = length data"
  using card_texts_le [of JSON_stringify data]
  by (simp add: countDuplicateRows_def foldl_scanRow_distinct)

lemma JSON_stringify_members:
  "JSON_stringify row =
     map (\<lambda>m. (fst m, the (jsonValue (snd m)))) (filter (\<lambda>m. snd m \<noteq> Undefined) row)"
proof (induction row)
  case Nil
  show ?case by simp
next
  case (Cons m row)
  then show ?case by (cases m; cases "snd m") auto
qed

lemma jsonValue_inj:
  "v \<noteq> Undefined \<Longrightarrow> w \<noteq> Undefined \<Longrightarrow> the (jsonValue v) = the (jsonValue w) \<Longrightarrow> v = w"
  by (cases v; cases w) simp_all

lemma JSON_stringify_eq_iff:
  "(JSON_stringify r1 = JSON_stringify r2) =
     (filter (\<lambda>m. snd m \<noteq> Undefined) r1 = filter (\<lambda>m. snd m \<noteq> Undefined) r2)"
proof -
  let ?f = "\<lambda>m :: string \<times> cell. (fst m, the (jsonValue (snd m)))"
  let ?d = "\<lambda>m :: string \<times> cell. snd m \<noteq> Undefined"
  have "inj_on ?f {m. ?d m}"
    by (rule inj_onI) (auto dest: jsonValue_inj)
  then have "inj_on ?f (set (filter ?d r1) \<union> set (filter ?d r2))"
    by (rule inj_on_subset) auto
  then show ?thesis
    unfolding JSON_stringify_members by (rule inj_on_map_eq_map)
qed

lemma duplicateRows_generateGlobalAnalysis:
  "duplicateRows (generateGlobalAnalysis p data cols) = countDuplicateRows data"
  by (simp add: generateGlobalAnalysis_def)

lemma ex_dup: "countDuplicateRows duplicateTable = 1"
  by (simp add: countDuplicateRows_def duplicateTable_def scanRow_def)

lemma ex_keyorder: "countDuplicateRows keyOrderTable = 0"
  by (simp add: countDuplicateRows_def keyOrderTable_def scanRow_def)

lemma ex_spec_keyorder: "spec_duplicateRows keyOrderTable = 1"
  by (simp add: spec_duplicateRows_def keyOrderTable_def sameContent_def insert_commute)

lemma length_map_filter:
  "length (List.map_filter f xs) = length (filter (\<lambda>x. f x \<noteq> None) xs)"
  by (induction xs) (auto simp: List.map_filter_simps split: option.splits)

lemma map_filter_Nil_iff:
  "(List.map_filter f xs = []) = (\<forall>x \<in> set xs. f x = None)"
  by (induction xs) (auto simp: List.map_filter_simps split: option.splits)

lemma set_map_filter_conv:
  "set (List.map_filter f xs) = {y. \<exists>x \<in> set xs. f x = Some y}"
  by (induction xs) (auto split: option.splits)

lemma length_dateValues:
  "length (dateValues p xs) = length (filter (converts p) xs)"
  by (simp add: dateValues_def length_map_filter)

lemma dateValues_Nil_iff:
  "(dateValues p xs = []) = (\<forall>v \<in> set xs. \<not> converts p v)"
proof -
  have "(dateValues p xs = []) = (length (dateValues p xs) = 0)" by simp
  also have "\<dots> = (List.map_filter (\<lambda>v. Date_parse p (StringOf p v)) xs = [])"
    by (simp add: dateValues_def)
  finally show ?thesis by (simp add: map_filter_Nil_iff)
qed

lemma dateValues_first:
  "dateValues p xs \<noteq> [] \<Longrightarrow> dateValues p xs ! 0 = Min (set (dateValues p xs))"
  using sorted_first_Min [of "dateValues p xs"] by (simp add: dateValues_def)

lemma dateValues_last:
  "dateValues p xs \<noteq> [] \<Longrightarrow>
   dateValues p xs ! (length (dateValues p xs) - 1) = Max (set (dateValues p xs))"
  using sorted_last_Max [of "dateValues p xs"] by (simp add: dateValues_def)

lemma datePart_Date:
  "datePart p ''Date'' xs =
     (if dateValues p xs = [] then None
      else Some \<lparr>ds_min = isoDay p (Min (set (dateValues p xs))),
                 ds_max = isoDay p (Max (set (dateValues p xs))),
                 ds_invalidCount = length xs - length (filter (converts p) xs)\<rparr>)"
proof (cases "dateValues p xs = []")
  case True
  then show ?thesis by (simp add: datePart_def)
next
  case False
  have "datePart p ''Date'' xs =
      Some \<lparr>ds_min = isoDay p (dateValues p xs ! 0),
            ds_max = isoDay p (dateValues p xs ! (length (dateValues p xs) - 1)),
            ds_invalidCount = length xs - length (dateValues p xs)\<rparr>"
    using False by (simp add: datePart_def Let_def)
  then have "datePart p ''Date'' xs =
      Some \<lparr>ds_min = isoDay p (Min (set (dateValues p xs))),
            ds_max = isoDay p (Max (set (dateValues p xs))),
            ds_invalidCount = length xs - length (dateValues p xs)\<rparr>"
    by (simp only: dateValues_first [OF False] dateValues_last [OF False])
  then show ?thesis
    using False by (simp add: length_dateValues)
qed

lemma datePart_other: "t \<noteq> ''Date'' \<Longrightarrow> datePart p t xs = None"
  by (simp add: datePart_def)

lemma ca_dateStats_analyzeColumn:
  "ca_dateStats (analyzeColumn p data col) =
     datePart p (ca_type (analyzeColumn p data col)) (nonNullOf data col)"
  by (simp add: analyzeColumn_def Let_def)

lemma date_type_has_date_text:
  assumes "fst (detectType p xs) = ''Date''"
  shows "\<exists>v \<in> set xs. isString v \<and> converts p v"
proof -
  have "real (dateCount p xs) > real (length xs) * 0.8"
    using assms by (simp add: detectType_def split: if_splits)
  then have "dateCount p xs > 0"
    by (cases "dateCount p xs") auto
  then have "filter (looksLikeDate p) xs \<noteq> []"
    by (auto simp: dateCount_def)
  then obtain v where v: "v \<in> set xs" and l: "looksLikeDate p v"
    by (metis filter_False)
  from l obtain s where "v = Str s" and "Date_parse p s \<noteq> None"
    by (cases v) (auto simp: looksLikeDate_def)
  with v show ?thesis by (intro bexI [of _ "Str s"]) auto
qed

lemma isoDay_prefix:
  "Date_toISOString p t = d @ CHR ''T'' # rest \<Longrightarrow> CHR ''T'' \<notin> set d \<Longrightarrow> isoDay p t = d"
proof -
  assume iso: "Date_toISOString p t = d @ CHR ''T'' # rest" and d: "CHR ''T'' \<notin> set d"
  have "\<And>c. c \<in> set d \<Longrightarrow> c \<noteq> CHR ''T''" using d by auto
  then have "takeWhile (\<lambda>c. c \<noteq> CHR ''T'') (d @ CHR ''T'' # rest) = d"
    by (simp add: takeWhile_append2)
  then show ?thesis by (simp add: isoDay_def iso)
qed

lemma isYMD_nth:
  assumes "isYMD u" and "i < 10"
  shows "isDigit (u ! i) \<or> u ! i = CHR ''-''"
proof -
  from assms(1) have len: "length u = 10"
    and b: "u ! 4 = CHR ''-''" and d: "u ! 7 = CHR ''-''"
    and A: "list_all isDigit (take 4 u)" and C: "list_all isDigit (take 2 (drop 5 u))"
    and E: "list_all isDigit (drop 8 u)"
    by (simp_all add: isYMD_def)
  have a: "isDigit (u ! n)" if "n < 4" for n
    using A [unfolded list_all_length, rule_format, of n] that len by simp
  have c: "isDigit (u ! (5 + n))" if "n < 2" for n
    using C [unfolded list_all_length, rule_format, of n] that len by simp
  have e: "isDigit (u ! (8 + n))" if "n < 2" for n
    using E [unfolded list_all_length, rule_format, of n] that len by simp
  from assms(2) consider "i < 4" | "i = 4" | "i = 5" | "i = 6" | "i = 7" | "i = 8" | "i = 9"
    by linarith
  then show ?thesis
  proof cases
    case 1
    with a show ?thesis by simp
  next
    case 2
    with b show ?thesis by simp
  next
    case 3
    with c [of 0] show ?thesis by simp
  next
    case 4
    with c [of 1] show ?thesis by simp
  next
    case 5
    with d show ?thesis by simp
  next
    case 6
    with e [of 0] show ?thesis by simp
  next
    case 7
    with e [of 1] show ?thesis by simp
  qed
qed

lemma isoDay_of_ISODateTime:
  assumes "isISODateTime (Date_toISOString p t)"
  shows "isoDay p t = take 10 (Date_toISOString p t)"
    and "isYMD (isoDay p t)"
proof -
  let ?s = "Date_toISOString p t"
  from assms have len: "length ?s = 24" and ymd: "isYMD (take 10 ?s)" and T: "?s ! 10 = CHR ''T''"
    by (simp_all add: isISODateTime_def)
  have "?s ! i \<noteq> CHR ''T''" if "i < 10" for i
  proof -
    have "take 10 ?s ! i = ?s ! i" using that by simp
    with isYMD_nth [OF ymd that] show ?thesis by (auto simp: isDigit_def)
  qed
  then show day: "isoDay p t = take 10 ?s"
    unfolding isoDay_def using T by (intro takeWhile_eq_take_P_nth) simp_all
  show "isYMD (isoDay p t)"
    unfolding day by (rule ymd)
qed

lemma firstOccurrences_snoc:
  "firstOccurrences (xs @ [x]) =
     (if x \<in> set xs then firstOccurrences xs else firstOccurrences xs @ [x])"
  by (simp add: firstOccurrences_def)

lemma set_firstOccurrences [simp]: "set (firstOccurrences xs) = set xs"
  by (simp add: firstOccurrences_def)

lemma distinct_firstOccurrences [simp]: "distinct (firstOccurrences xs)"
  by (simp add: firstOccurrences_def)

lemma firstOccurrences_Nil [simp]: "firstOccurrences [] = []"
  by (simp add: firstOccurrences_def)

lemma map_of_tabulate:
  "map_of (map (\<lambda>k. (k, f k)) ks) k = (if k \<in> set ks then Some (f k) else None)"
  by (induction ks) auto

lemma getCount_countsOf:
  "getCount (countsOf ks) k = (if k \<in> set ks then Some (count_list ks k) else None)"
  by (simp add: getCount_def countsOf_def map_of_tabulate)

lemma fst_countsOf [simp]: "map fst (countsOf ks) = firstOccurrences ks"
  by (simp add: countsOf_def comp_def)

lemma setCount_countsOf:
  "setCount (countsOf ks) k (count_list ks k + 1) = countsOf (ks @ [k])"
proof (cases "k \<in> set ks")
  case True
  have "map (\<lambda>(k', n). if k' = k then (k', count_list ks k + 1) else (k', n))
          (map (\<lambda>k'. (k', count_list ks k')) (firstOccurrences ks))
        = map (\<lambda>k'. (k', count_list (ks @ [k]) k')) (firstOccurrences ks)"
    by (auto simp: comp_def)
  with True show ?thesis
    by (simp add: setCount_def countsOf_def firstOccurrences_snoc)
next
  case False
  have "map (\<lambda>k'. (k', count_list ks k')) (firstOccurrences ks)
        = map (\<lambda>k'. (k', count_list (ks @ [k]) k')) (firstOccurrences ks)"
    using False by (intro map_cong) auto
  with False show ?thesis
    by (simp add: setCount_def countsOf_def firstOccurrences_snoc)
qed

lemma maxFrequency_upper: "count_list ks k \<le> maxFrequency ks"
proof (cases "k \<in> set ks")
  case True
  then have "count_list ks k \<in> set (map (count_list ks) ks)" by simp
  then have "count_list ks k \<le> Max (set (map (count_list ks) ks))"
    by (intro Max_ge) simp_all
  with True show ?thesis by (auto simp: maxFrequency_def)
next
  case False
  then show ?thesis by simp
qed

lemma maxFrequency_attained:
  "ks \<noteq> [] \<Longrightarrow> \<exists>k \<in> set ks. count_list ks k = maxFrequency ks"
proof -
  assume ne: "ks \<noteq> []"
  then have "Max (count_list ks ` set ks) \<in> count_list ks ` set ks"
    by (intro Max_in) simp_all
  then obtain k where "k \<in> set ks" and "Max (count_list ks ` set ks) = count_list ks k"
    by blast
  with ne show ?thesis by (auto simp: maxFrequency_def)
qed

lemma maxFrequency_eqI:
  assumes "\<And>k. k \<in> set ks \<Longrightarrow> count_list ks k \<le> m" and "k0 \<in> set ks" and "count_list ks k0 = m"
  shows "maxFrequency ks = m"
proof -
  have ne: "ks \<noteq> []" using assms(2) by auto
  have "Max (set (map (count_list ks) ks)) = m"
  proof (rule Max_eqI)
    show "finite (set (map (count_list ks) ks))" by simp
    show "m \<in> set (map (count_list ks) ks)" using assms(2,3) by auto
    fix y assume "y \<in> set (map (count_list ks) ks)"
    then show "y \<le> m" using assms(1) by auto
  qed
  with ne show ?thesis by (simp add: maxFrequency_def)
qed

lemma maxFrequency_snoc:
  "maxFrequency (ks @ [k]) = max (maxFrequency ks) (count_list ks k + 1)"
proof (cases "maxFrequency ks \<le> count_list ks k + 1")
  case True
  have "maxFrequency (ks @ [k]) = count_list ks k + 1"
  proof (rule maxFrequency_eqI [of _ _ k])
    fix k' assume "k' \<in> set (ks @ [k])"
    show "count_list (ks @ [k]) k' \<le> count_list ks k + 1"
      using True maxFrequency_upper [of ks k'] by auto
  qed simp_all
  with True show ?thesis by (simp add: max_def)
next
  case False
  then have lt: "count_list ks k + 1 < maxFrequency ks" by simp
  then have ne: "ks \<noteq> []" by (auto simp: maxFrequency_def)
  then obtain k0 where k0: "k0 \<in> set ks" and c0: "count_list ks k0 = maxFrequency ks"
    using maxFrequency_attained by blast
  have neq: "k0 \<noteq> k" using lt c0 by auto
  have "maxFrequency (ks @ [k]) = maxFrequency ks"
  proof (rule maxFrequency_eqI [of _ _ k0])
    fix k' assume "k' \<in> set (ks @ [k])"
    show "count_list (ks @ [k]) k' \<le> maxFrequency ks"
      using lt maxFrequency_upper [of ks k'] by auto
  next
    show "k0 \<in> set (ks @ [k])" using k0 by simp
    show "count_list (ks @ [k]) k0 = maxFrequency ks" using c0 neq by simp
  qed
  with False show ?thesis by (simp add: max_def)
qed

lemma foldl_countStep:
  "foldl (countStep p) ([], 0) vs = (countsOf (keysOf p vs), maxFrequency (keysOf p vs))"
proof (induction vs rule: rev_induct)
  case Nil
  show ?case by (simp add: countsOf_def maxFrequency_def)
next
  case (snoc v vs)
  let ?ks = "keysOf p vs" and ?k = "StringOf p (Num v)"
  have c: "(case getCount (countsOf ?ks) ?k of None \<Rightarrow> 0 | Some n \<Rightarrow> n) + 1 = count_list ?ks ?k + 1"
    by (simp add: getCount_countsOf)
  have "countStep p (countsOf ?ks, maxFrequency ?ks) v
        = (countsOf (?ks @ [?k]), maxFrequency (?ks @ [?k]))"
    unfolding countStep_def Let_def fst_conv snd_conv c setCount_countsOf maxFrequency_snoc
    by (simp add: max_def)
  with snoc.IH show ?case by simp
qed

lemma set_ownPropertyKeys [simp]: "set (ownPropertyKeys ks) = set ks"
  by (auto simp: ownPropertyKeys_def)

lemma ownPropertyKeys_no_index:
  "(\<forall>k \<in> set ks. arrayIndex k = None) \<Longrightarrow> ownPropertyKeys ks = ks"
  by (simp add: ownPropertyKeys_def)

lemma getMode_eq:
  assumes "vs \<noteq> []"
  shows "getMode p vs =
     take 3 (map (numberOrText p)
       (filter (\<lambda>k. count_list (keysOf p vs) k = maxFrequency (keysOf p vs))
          (ownPropertyKeys (firstOccurrences (keysOf p vs)))))"
proof -
  let ?ks = "keysOf p vs"
  have "filter (\<lambda>k. getCount (countsOf ?ks) k = Some (maxFrequency ?ks))
          (ownPropertyKeys (firstOccurrences ?ks))
      = filter (\<lambda>k. count_list ?ks k = maxFrequency ?ks)
          (ownPropertyKeys (firstOccurrences ?ks))"
    by (rule filter_cong [OF refl]) (simp add: getCount_countsOf)
  then show ?thesis
    using assms by (simp add: getMode_def foldl_countStep Object_keys_def)
qed

lemma length_getMode: "length (getMode p vs) \<le> 3"
  by (simp add: getMode_def Let_def)

lemma getMode_no_index_keys:
  assumes "\<forall>v \<in> set vs. arrayIndex (StringOf p (Num v)) = None"
  shows "getMode p vs = spec_mode p vs"
proof (cases "vs = []")
  case True
  then show ?thesis by (simp add: getMode_def spec_mode_def)
next
  case False
  have "\<forall>k \<in> set (firstOccurrences (keysOf p vs)). arrayIndex k = None"
    using assms by auto
  then have "ownPropertyKeys (firstOccurrences (keysOf p vs)) = firstOccurrences (keysOf p vs)"
    by (rule ownPropertyKeys_no_index)
  then show ?thesis
    by (simp add: getMode_eq [OF False] spec_mode_def)
qed

lemma arrayIndex_digits:
  "arrayIndex ''1'' = Some 1" "arrayIndex ''2'' = Some 2" "arrayIndex ''3'' = Some 3"
  by (simp_all add: arrayIndex_def decVal_def digitVal_def isDigit_def)

lemma ex_mode:
  assumes "Number_toString p 1 = ''1''" "Number_toString p 2 = ''2''" "Number_toString p 3 = ''3''"
      and "String_toNumber p ''1'' = Some 1" "String_toNumber p ''2'' = Some 2"
  shows "getMode p [1, 1, 2, 2, 3] = [Num 1, Num 2]"
  using assms
  by (simp add: getMode_def countStep_def getCount_def setCount_def Object_keys_def
      ownPropertyKeys_def numberOrText_def arrayIndex_digits)

lemma examplePlatform_digits:
  "Number_toString examplePlatform 1 = ''1''" "Number_toString examplePlatform 2 = ''2''"
  "Number_toString examplePlatform 3 = ''3''"
  "String_toNumber examplePlatform ''1'' = Some 1" "String_toNumber examplePlatform ''2'' = Some 2"
  by (simp_all add: examplePlatform_def decimal.simps decVal_def digitVal_def isDigit_def)

lemma ex_mode_reordered: "getMode examplePlatform [2, 2, 1, 1] = [Num 1, Num 2]"
  by (simp add: getMode_def countStep_def getCount_def setCount_def Object_keys_def
      ownPropertyKeys_def numberOrText_def arrayIndex_digits examplePlatform_digits)

lemma ex_spec_mode: "spec_mode examplePlatform [2, 2, 1, 1] = [Num 2, Num 1]"
  by (simp add: spec_mode_def firstOccurrences_def maxFrequency_def numberOrText_def
      examplePlatform_digits)

lemma examplePlatform_negatives:
  "Number_toString examplePlatform (- 1) = ''-1''" "Number_toString examplePlatform (- 2) = ''-2''"
  "String_toNumber examplePlatform ''-1'' = Some (- 1)"
  "String_toNumber examplePlatform ''-2'' = Some (- 2)"
  "arrayIndex ''-1'' = None" "arrayIndex ''-2'' = None"
  by (simp_all add: examplePlatform_def decimal.simps decVal_def digitVal_def isDigit_def
      arrayIndex_def)

lemma ex_spec_mode_negatives: "spec_mode examplePlatform [- 2, - 2, - 1, - 1] = [Num (- 2), Num (- 1)]"
  by (simp add: spec_mode_def firstOccurrences_def maxFrequency_def numberOrText_def
      examplePlatform_negatives)

section \<open>Missing values and uniqueness\<close>

text \<open>
  C6. In both flows the missing count of a column plus the number of its non-missing
  values is the number of rows of the table, and the missing count is the number of
  values that are \<^verbatim>\<open>null\<close>, \<^verbatim>\<open>undefined\<close> or the empty text.
\<close>

theorem missing_plus_nonMissing_is_totalRows:
  assumes "col \<in> set cols"
  shows "\<exists>r. columns (generateGlobalAnalysis p data cols) col = Some r
           \<and> ca_missing r + length (filter nonMissing (columnValues data col))
               = totalRows (generateGlobalAnalysis p data cols)
           \<and> ca_missing r = length (filter (\<lambda>v. v = Null \<or> v = Undefined \<or> v = Str [])
                                  (columnValues data col))
           \<and> cs_missing (calculateColumnStats p data col) = ca_missing r
           \<and> cs_count (calculateColumnStats p data col)
               = totalRows (generateGlobalAnalysis p data cols)"
proof -
  let ?vs = "columnValues data col"
  have len: "length ?vs = length data"
    by (simp add: columnValues_def)
  have le: "length (filter nonMissing ?vs) \<le> length ?vs"
    by simp
  have neg: "(\<lambda>v. \<not> nonMissing v) = (\<lambda>v. v = Null \<or> v = Undefined \<or> v = Str [])"
    by (auto simp: nonMissing_def)
  have miss: "length ?vs - length (filter nonMissing ?vs)
                = length (filter (\<lambda>v. v = Null \<or> v = Undefined \<or> v = Str []) ?vs)"
    using length_filter_compl [of ?vs nonMissing] by (simp add: neg)
  have tot: "totalRows (generateGlobalAnalysis p data cols) = length data"
    by (simp add: generateGlobalAnalysis_def)
  show ?thesis
    using assms le len miss tot
    by (simp add: columns_generateGlobalAnalysis ca_missing_analyzeColumn
        cs_missing_calculateColumnStats cs_count_calculateColumnStats)
qed

theorem missing_plus_nonMissing_witness:
  "''a'' \<in> set [''a'', ''b'']
   \<and> (\<exists>r. columns (generateGlobalAnalysis examplePlatform exampleTable [''a'', ''b'']) ''a'' = Some r
        \<and> ca_missing r = 2
        \<and> length (filter nonMissing (columnValues exampleTable ''a'')) = 1
        \<and> totalRows (generateGlobalAnalysis examplePlatform exampleTable [''a'', ''b'']) = 3)"
proof -
  have h: "''a'' \<in> set [''a'', ''b'']" by simp
  have n: "length (filter nonMissing (columnValues exampleTable ''a'')) = 1"
    by (simp add: columnValues_def exampleTable_def getCell_def nonMissing_def)
  have t: "totalRows (generateGlobalAnalysis examplePlatform exampleTable [''a'', ''b'']) = 3"
    by (simp add: generateGlobalAnalysis_def exampleTable_def)
  from missing_plus_nonMissing_is_totalRows [OF h, of examplePlatform exampleTable]
  show ?thesis using h n t by auto
qed

text \<open>
  C7. In both flows the unique count is the number of distinct values of the whole
  column, missing values included: it is the number of distinct non-missing values plus
  the number of distinct missing values (\<^verbatim>\<open>null\<close>, \<^verbatim>\<open>undefined\<close> and the empty text are
  distinct from each other), so it exceeds the number of distinct non-missing values as
  soon as one value is missing, while the missing count counts the values that the
  missing predicate selects.
\<close>

theorem unique_counts_unfiltered_values:
  assumes "col \<in> set cols"
  shows "\<exists>r. columns (generateGlobalAnalysis p data cols) col = Some r
           \<and> ca_unique r = card (set (columnValues data col))
           \<and> cs_unique (calculateColumnStats p data col) = card (set (columnValues data col))
           \<and> ca_unique r = card (set (filter nonMissing (columnValues data col)))
                 + card {v \<in> set (columnValues data col). \<not> nonMissing v}
           \<and> ((\<exists>v \<in> set (columnValues data col). \<not> nonMissing v) \<longrightarrow>
                 ca_unique r > card (set (filter nonMissing (columnValues data col))))
           \<and> ca_missing r = length (filter (\<lambda>v. \<not> nonMissing v) (columnValues data col))
           \<and> cs_missing (calculateColumnStats p data col)
                 = length (filter (\<lambda>v. \<not> nonMissing v) (columnValues data col))"
proof -
  let ?vs = "columnValues data col"
  have pos: "(\<exists>v \<in> set ?vs. \<not> nonMissing v) \<Longrightarrow> 0 < card {v \<in> set ?vs. \<not> nonMissing v}"
  proof -
    assume "\<exists>v \<in> set ?vs. \<not> nonMissing v"
    then have "{v \<in> set ?vs. \<not> nonMissing v} \<noteq> {}" by blast
    then show ?thesis by (simp add: card_gt_0_iff)
  qed
  show ?thesis
    using assms pos card_split_missing [of ?vs] length_filter_compl [of ?vs nonMissing]
    by (auto simp: columns_generateGlobalAnalysis ca_unique_analyzeColumn
        cs_unique_calculateColumnStats setSize_card ca_missing_analyzeColumn
        cs_missing_calculateColumnStats)
qed

theorem unique_counts_unfiltered_values_witness:
  "''a'' \<in> set [''a'', ''b'']
   \<and> columnValues exampleTable ''a'' = [Num 1, Str [], Undefined]
   \<and> (\<exists>r. columns (generateGlobalAnalysis examplePlatform exampleTable [''a'', ''b'']) ''a'' = Some r
        \<and> ca_unique r = 3 \<and> ca_missing r = 2
        \<and> card (set (filter nonMissing (columnValues exampleTable ''a''))) = 1)"
proof -
  have h: "''a'' \<in> set [''a'', ''b'']" by simp
  have v: "columnValues exampleTable ''a'' = [Num 1, Str [], Undefined]"
    by (simp add: columnValues_def exampleTable_def getCell_def)
  from unique_counts_unfiltered_values [OF h, of examplePlatform exampleTable]
  show ?thesis using h v by (auto simp: nonMissing_def)
qed

section \<open>Type inference\<close>

text \<open>
  C1. The type of a column in the dataset-level flow follows the precedence Numeric, Date,
  Mixed, Categorical over the counts of its non-missing values: Numeric when there are
  numbers and no texts; else Date when the texts that parse as a date and contain
  \<^verbatim>\<open>-\<close> or \<^verbatim>\<open>/\<close> are more than 0.8 times the non-missing values, with the issue
  "Invalid Date Formats Detected" exactly when they are fewer than the non-missing values;
  else Mixed, with its issue, when there are numbers and texts; else Categorical. The four
  columns of the specification get the four types.
\<close>

theorem type_inference_precedence:
  "ca_type (analyzeColumn p data col) =
     (if numCount (nonNullOf data col) > 0 \<and> strCount (nonNullOf data col) = 0 then ''Numeric''
      else if real (dateCount p (nonNullOf data col)) > real (length (nonNullOf data col)) * 0.8
        then ''Date''
      else if numCount (nonNullOf data col) > 0 \<and> strCount (nonNullOf data col) > 0 then ''Mixed''
      else ''Categorical'')
   \<and> (''Invalid Date Formats Detected'' \<in> set (ca_issues (analyzeColumn p data col))) =
       (ca_type (analyzeColumn p data col) = ''Date''
        \<and> dateCount p (nonNullOf data col) < length (nonNullOf data col))
   \<and> (''Mixed Data Types (Numbers & Text)'' \<in> set (ca_issues (analyzeColumn p data col))) =
       (ca_type (analyzeColumn p data col) = ''Mixed'')
   \<and> dateCount p (nonNullOf data col) =
       length (filter (\<lambda>v. \<exists>s. v = Str s \<and> Date_parse p s \<noteq> None
                                  \<and> (CHR ''-'' \<in> set s \<or> CHR ''/'' \<in> set s)) (nonNullOf data col))
   \<and> (col \<in> set cols \<longrightarrow>
        columns (generateGlobalAnalysis p data cols) col = Some (analyzeColumn p data col))
   \<and> ca_type (analyzeColumn p (columnTable [Num 1, Num 2, Num 3]) ''c'') = ''Numeric''
   \<and> (Date_parse p ''2023-01-01'' \<noteq> None \<and> Date_parse p ''2023-02-01'' \<noteq> None \<longrightarrow>
        ca_type (analyzeColumn p (columnTable [Str ''2023-01-01'', Str ''2023-02-01'']) ''c'') = ''Date'')
   \<and> ca_type (analyzeColumn p (columnTable [Num 1, Str ''a'', Num 2]) ''c'') = ''Mixed''
   \<and> ca_issues (analyzeColumn p (columnTable [Num 1, Str ''a'', Num 2]) ''c'')
        = [''Mixed Data Types (Numbers & Text)'']
   \<and> ca_type (analyzeColumn p (columnTable [Str ''a'', Str ''b'', Str ''a'']) ''c'') = ''Categorical''"
proof -
  have dc: "looksLikeDate p = (\<lambda>v. \<exists>s. v = Str s \<and> Date_parse p s \<noteq> None
                                  \<and> (CHR ''-'' \<in> set s \<or> CHR ''/'' \<in> set s))"
    by (rule ext) (simp add: looksLikeDate_def split: cell.splits)
  have a: "(''Invalid Date Formats Detected'' \<in> set (ca_issues (analyzeColumn p data col))) =
       (ca_type (analyzeColumn p data col) = ''Date''
        \<and> dateCount p (nonNullOf data col) < length (nonNullOf data col))"
    by (simp add: ca_issues_analyzeColumn ca_type_analyzeColumn numericPart_no_date_issue
        date_issue_detectType)
  have b: "(''Mixed Data Types (Numbers & Text)'' \<in> set (ca_issues (analyzeColumn p data col))) =
       (ca_type (analyzeColumn p data col) = ''Mixed'')"
    by (simp add: ca_issues_analyzeColumn ca_type_analyzeColumn numericPart_no_mixed_issue
        mixed_issue_detectType)
  have c: "dateCount p (nonNullOf data col) =
       length (filter (\<lambda>v. \<exists>s. v = Str s \<and> Date_parse p s \<noteq> None
                                  \<and> (CHR ''-'' \<in> set s \<or> CHR ''/'' \<in> set s)) (nonNullOf data col))"
    unfolding dateCount_def dc ..
  show ?thesis
    using a b c ex_numeric [of p] ex_date [of p] ex_mixed [of p] ex_categorical [of p]
    by (simp only: ca_type_analyzeColumn [of p data col] fst_detectType
        columns_generateGlobalAnalysis) simp
qed

theorem type_inference_precedence_witness:
  "Date_parse examplePlatform ''2023-01-01'' \<noteq> None
   \<and> Date_parse examplePlatform ''2023-02-01'' \<noteq> None
   \<and> ca_type (analyzeColumn examplePlatform
        (columnTable [Str ''2023-01-01'', Str ''2023-02-01'']) ''c'') = ''Date''
   \<and> ''c'' \<in> set [''c'']
   \<and> columns (generateGlobalAnalysis examplePlatform
        (columnTable [Str ''2023-01-01'', Str ''2023-02-01'']) [''c'']) ''c''
      = Some (analyzeColumn examplePlatform (columnTable [Str ''2023-01-01'', Str ''2023-02-01'']) ''c'')"
proof -
  have h: "Date_parse examplePlatform ''2023-01-01'' \<noteq> None
           \<and> Date_parse examplePlatform ''2023-02-01'' \<noteq> None"
    by (simp add: examplePlatform_def)
  have c: "''c'' \<in> set [''c'']" by simp
  from type_inference_precedence [of examplePlatform
      "columnTable [Str ''2023-01-01'', Str ''2023-02-01'']" "''c''" "[''c'']"]
  show ?thesis using h c by blast
qed

section \<open>Outliers\<close>




section \<open>Quartiles and median\<close>




section \<open>The types of the per-column flow\<close>

text \<open>
  C10. \<^verbatim>\<open>calculateColumnStats\<close> gives the type Numeric exactly when the column has a
  non-missing value and all its non-missing values are numbers; in every other case the
  type is Categorical and min and max are the least and the greatest of the stringified
  non-missing values in lexicographic order (absent when there is no such value). The
  types Date and Mixed never occur (and \<^verbatim>\<open>ColumnStats\<close> has no list of issues): a column of
  dates and a column of numbers and texts are Categorical here, while the dataset-level
  flow types them Date and Mixed.
\<close>

theorem per_column_flow_is_numeric_or_categorical:
  "(cs_type (calculateColumnStats p data col) = ''Numeric'') =
     (nonNullOf data col \<noteq> [] \<and> (\<forall>v \<in> set (nonNullOf data col). \<exists>x. v = Num x))
   \<and> (cs_type (calculateColumnStats p data col) \<noteq> ''Numeric'' \<longrightarrow>
        cs_type (calculateColumnStats p data col) = ''Categorical''
        \<and> cs_min (calculateColumnStats p data col) =
            (if nonNullOf data col = [] then None
             else Some (Str (Min (set (map (StringOf p) (nonNullOf data col))))))
        \<and> cs_max (calculateColumnStats p data col) =
            (if nonNullOf data col = [] then None
             else Some (Str (Max (set (map (StringOf p) (nonNullOf data col)))))))
   \<and> cs_type (calculateColumnStats p data col) \<noteq> ''Date''
   \<and> cs_type (calculateColumnStats p data col) \<noteq> ''Mixed''
   \<and> cs_type (calculateColumnStats p (columnTable [Str ''2023-01-01'', Str ''2023-02-01'']) ''c'')
        = ''Categorical''
   \<and> cs_type (calculateColumnStats p (columnTable [Num 1, Str ''a'', Num 2]) ''c'') = ''Categorical''"
proof -
  have nums: "(\<forall>v \<in> set (nonNullOf data col). \<exists>x. v = Num x) = list_all isNumber (nonNullOf data col)"
  proof -
    have "\<And>v. (\<exists>x. v = Num x) = isNumber v"
      by (case_tac v) simp_all
    then show ?thesis by (simp add: list_all_iff)
  qed
  have a: "(cs_type (calculateColumnStats p data col) = ''Numeric'') =
     (nonNullOf data col \<noteq> [] \<and> (\<forall>v \<in> set (nonNullOf data col). \<exists>x. v = Num x))"
    unfolding nums by (simp add: cs_type_calculateColumnStats)
  have b: "cs_type (calculateColumnStats p data col) \<noteq> ''Date''
           \<and> cs_type (calculateColumnStats p data col) \<noteq> ''Mixed''"
    by (simp add: cs_type_calculateColumnStats)
  have c: "cs_type (calculateColumnStats p (columnTable [Str ''2023-01-01'', Str ''2023-02-01'']) ''c'')
        = ''Categorical''"
    by (simp add: cs_type_calculateColumnStats)
  have d: "cs_type (calculateColumnStats p (columnTable [Num 1, Str ''a'', Num 2]) ''c'') = ''Categorical''"
    by (simp add: cs_type_calculateColumnStats)
  show ?thesis
    using a b c d calculateColumnStats_categorical [of p data col] by blast
qed

theorem per_column_flow_witness:
  "cs_type (calculateColumnStats examplePlatform
      (columnTable [Str ''2023-01-01'', Null, Str ''2023-02-01'']) ''c'') \<noteq> ''Numeric''
   \<and> cs_type (calculateColumnStats examplePlatform
      (columnTable [Str ''2023-01-01'', Null, Str ''2023-02-01'']) ''c'') = ''Categorical''
   \<and> cs_min (calculateColumnStats examplePlatform
      (columnTable [Str ''2023-01-01'', Null, Str ''2023-02-01'']) ''c'') = Some (Str ''2023-01-01'')
   \<and> cs_max (calculateColumnStats examplePlatform
      (columnTable [Str ''2023-01-01'', Null, Str ''2023-02-01'']) ''c'') = Some (Str ''2023-02-01'')
   \<and> ca_type (analyzeColumn examplePlatform
      (columnTable [Str ''2023-01-01'', Null, Str ''2023-02-01'']) ''c'') = ''Date''"
proof -
  let ?t = "columnTable [Str ''2023-01-01'', Null, Str ''2023-02-01'']"
  have n: "cs_type (calculateColumnStats examplePlatform ?t ''c'') \<noteq> ''Numeric''"
    by (simp add: cs_type_calculateColumnStats)
  have d: "ca_type (analyzeColumn examplePlatform ?t ''c'') = ''Date''"
    by (simp add: ca_type_analyzeColumn fst_detectType numCount_def strCount_def dateCount_def
        looksLikeDate_def examplePlatform_def)
  have lt: "''2023-01-01'' < ''2023-02-01''" by simp
  then have m: "min ''2023-01-01'' ''2023-02-01'' = ''2023-01-01''"
    "max ''2023-01-01'' ''2023-02-01'' = ''2023-02-01''"
    by (simp_all add: min_def max_def)
  from per_column_flow_is_numeric_or_categorical [of examplePlatform ?t "''c''"]
  show ?thesis using n d by (simp add: m)
qed

section \<open>Duplicate rows\<close>

text \<open>
  C2, as the code has it. \<^verbatim>\<open>duplicateRows\<close> counts the rows whose \<^verbatim>\<open>JSON.stringify\<close> text is
  the text of an earlier row in scan order, so the first row with a given text is never
  counted: the count and the number of distinct texts add up to the number of rows. Two
  rows have the same text exactly when they have the same members with a value other than
  \<^verbatim>\<open>undefined\<close>, in the same order of enumeration: members with the value \<^verbatim>\<open>undefined\<close> are
  left out, a number 5 and the text "5" are distinct, and the keys are not sorted. The
  table of the specification's scenario has one duplicate. The rows \<^verbatim>\<open>{a: 1, b: 2}\<close> and
  \<^verbatim>\<open>{b: 2, a: 1}\<close> have different texts and are not duplicates of each other.
\<close>

theorem duplicate_rows_by_json_text:
  "duplicateRows (generateGlobalAnalysis p data cols) =
     length (filter (\<lambda>i. \<exists>j<i. JSON_stringify (data ! j) = JSON_stringify (data ! i))
               [0..<length data])
   \<and> duplicateRows (generateGlobalAnalysis p data cols) + card (JSON_stringify ` set data)
       = totalRows (generateGlobalAnalysis p data cols)
   \<and> (JSON_stringify r1 = JSON_stringify r2) =
       (filter (\<lambda>m. snd m \<noteq> Undefined) r1 = filter (\<lambda>m. snd m \<noteq> Undefined) r2)
   \<and> JSON_stringify [(k, Num 5)] \<noteq> JSON_stringify [(k, Str ''5'')]
   \<and> duplicateRows (generateGlobalAnalysis p duplicateTable cols) = 1
   \<and> JSON_stringify (keyOrderTable ! 0) \<noteq> JSON_stringify (keyOrderTable ! 1)
   \<and> duplicateRows (generateGlobalAnalysis p keyOrderTable cols) = 0"
proof -
  have a: "JSON_stringify (keyOrderTable ! 0) \<noteq> JSON_stringify (keyOrderTable ! 1)"
    by (simp add: keyOrderTable_def)
  have b: "duplicateRows (generateGlobalAnalysis p data cols) + card (JSON_stringify ` set data)
       = totalRows (generateGlobalAnalysis p data cols)"
    using countDuplicateRows_distinct [of data] by (simp add: generateGlobalAnalysis_def)
  have c: "JSON_stringify [(k, Num 5)] \<noteq> JSON_stringify [(k, Str ''5'')]"
    by simp
  have d: "duplicateRows (generateGlobalAnalysis p data cols) =
     length (filter (\<lambda>i. \<exists>j<i. JSON_stringify (data ! j) = JSON_stringify (data ! i))
               [0..<length data])"
    by (simp only: duplicateRows_generateGlobalAnalysis countDuplicateRows_eq)
  have e: "duplicateRows (generateGlobalAnalysis p duplicateTable cols) = 1"
    "duplicateRows (generateGlobalAnalysis p keyOrderTable cols) = 0"
    by (simp_all add: duplicateRows_generateGlobalAnalysis ex_dup ex_keyorder)
  show ?thesis
    using a b c d e JSON_stringify_eq_iff [of r1 r2] by blast
qed

theorem duplicate_rows_by_json_text_witness:
  "duplicateRows (generateGlobalAnalysis examplePlatform duplicateTable [''a'', ''b'']) = 1
   \<and> length (filter (\<lambda>i. \<exists>j<i. JSON_stringify (duplicateTable ! j) = JSON_stringify (duplicateTable ! i))
               [0..<length duplicateTable]) = 1
   \<and> card (JSON_stringify ` set duplicateTable) = 2
   \<and> totalRows (generateGlobalAnalysis examplePlatform duplicateTable [''a'', ''b'']) = 3
   \<and> JSON_stringify [(''a'', Num 1), (''b'', Undefined)] = JSON_stringify [(''a'', Num 1)]"
proof -
  have t: "totalRows (generateGlobalAnalysis examplePlatform duplicateTable [''a'', ''b'']) = 3"
    by (simp add: generateGlobalAnalysis_def duplicateTable_def)
  from duplicate_rows_by_json_text [of examplePlatform duplicateTable "[''a'', ''b'']"
      "[(''a'', Num 1), (''b'', Undefined)]" "[(''a'', Num 1)]" "''k''"]
  show ?thesis using t by simp
qed

text \<open>
  The count of the specification, which ignores the order of the keys, is 1 on the two
  rows \<^verbatim>\<open>{a: 1, b: 2}\<close> and \<^verbatim>\<open>{b: 2, a: 1}\<close>; the code counts 0.
\<close>

theorem duplicate_rows_counterexample:
  "map_of (keyOrderTable ! 0) = map_of (keyOrderTable ! 1)
   \<and> spec_duplicateRows keyOrderTable = 1
   \<and> duplicateRows (generateGlobalAnalysis examplePlatform keyOrderTable [''a'', ''b'']) = 0"
proof -
  have "map_of (keyOrderTable ! 0) = map_of (keyOrderTable ! 1)"
    by (rule ext) (simp add: keyOrderTable_def)
  then show ?thesis
    by (simp add: ex_spec_keyorder duplicateRows_generateGlobalAnalysis ex_keyorder)
qed

section \<open>Date statistics\<close>

text \<open>
  C5, as the code has it. In the report of \<^verbatim>\<open>generateGlobalAnalysis\<close>, a column whose
  inferred type is Date has a non-missing text that converts to a date, and its
  \<^verbatim>\<open>dateStats\<close> is present: \<^verbatim>\<open>invalidCount\<close> is the number of non-missing values minus the
  number of those that convert (every non-missing value is converted through \<^verbatim>\<open>String\<close>),
  and \<^verbatim>\<open>min\<close> and \<^verbatim>\<open>max\<close> are the earliest and the latest of the converted time values, each
  rendered by \<^verbatim>\<open>toISOString\<close> and cut before the first \<^verbatim>\<open>T\<close>. Where \<^verbatim>\<open>toISOString\<close> renders the
  time value as \<^verbatim>\<open>YYYY-MM-DDTHH:mm:ss.sssZ\<close>, its UTC rendering for the years 0 to 9999, the
  result is the calendar date \<^verbatim>\<open>YYYY-MM-DD\<close> of that rendering, without the time. The date
  statistics are omitted, not zero-filled, for every column of another type and for every
  column none of whose non-missing values converts.
\<close>

theorem date_stats_of_date_columns:
  "(col \<in> set cols \<longrightarrow>
      (\<exists>r. columns (generateGlobalAnalysis p data cols) col = Some r
         \<and> (ca_type r = ''Date'' \<longrightarrow>
              (\<exists>v \<in> set (nonNullOf data col). isString v \<and> converts p v)
              \<and> (\<exists>ds. ca_dateStats r = Some ds
                    \<and> ds_invalidCount ds =
                        length (nonNullOf data col)
                        - length (filter (converts p) (nonNullOf data col))
                    \<and> ds_min ds = isoDay p (Min (set (dateValues p (nonNullOf data col))))
                    \<and> ds_max ds = isoDay p (Max (set (dateValues p (nonNullOf data col))))
                    \<and> (isISODateTime (Date_toISOString p (Min (set (dateValues p (nonNullOf data col)))))
                        \<longrightarrow> isYMD (ds_min ds)
                            \<and> ds_min ds = take 10 (Date_toISOString p
                                                     (Min (set (dateValues p (nonNullOf data col))))))
                    \<and> (isISODateTime (Date_toISOString p (Max (set (dateValues p (nonNullOf data col)))))
                        \<longrightarrow> isYMD (ds_max ds)
                            \<and> ds_max ds = take 10 (Date_toISOString p
                                                     (Max (set (dateValues p (nonNullOf data col))))))))
         \<and> (ca_type r \<noteq> ''Date'' \<longrightarrow> ca_dateStats r = None)
         \<and> ((\<forall>v \<in> set (nonNullOf data col). \<not> converts p v) \<longrightarrow> ca_dateStats r = None)))
   \<and> (datePart p ''Date'' xs = None) = (\<forall>v \<in> set xs. \<not> converts p v)
   \<and> set (dateValues p xs) = {t. \<exists>v \<in> set xs. Date_parse p (StringOf p v) = Some t}"
proof -
  let ?r = "analyzeColumn p data col" and ?xs = "nonNullOf data col"
  let ?lo = "Min (set (dateValues p ?xs))" and ?hi = "Max (set (dateValues p ?xs))"
  have a: "\<exists>v \<in> set ?xs. isString v \<and> converts p v" if "ca_type ?r = ''Date''"
    using that date_type_has_date_text [of p ?xs] by (simp add: ca_type_analyzeColumn)
  have ne: "dateValues p ?xs \<noteq> []" if "ca_type ?r = ''Date''"
    using a [OF that] by (auto simp: dateValues_Nil_iff)
  have b: "\<exists>ds. ca_dateStats ?r = Some ds
            \<and> ds_invalidCount ds = length ?xs - length (filter (converts p) ?xs)
            \<and> ds_min ds = isoDay p ?lo \<and> ds_max ds = isoDay p ?hi
            \<and> (isISODateTime (Date_toISOString p ?lo)
                \<longrightarrow> isYMD (ds_min ds) \<and> ds_min ds = take 10 (Date_toISOString p ?lo))
            \<and> (isISODateTime (Date_toISOString p ?hi)
                \<longrightarrow> isYMD (ds_max ds) \<and> ds_max ds = take 10 (Date_toISOString p ?hi))"
    if "ca_type ?r = ''Date''"
    using ne [OF that] isoDay_of_ISODateTime [of p ?lo] isoDay_of_ISODateTime [of p ?hi]
    by (simp add: ca_dateStats_analyzeColumn that datePart_Date)
  have c: "ca_dateStats ?r = None" if "ca_type ?r \<noteq> ''Date''"
    using that by (simp add: ca_dateStats_analyzeColumn datePart_other)
  have d: "ca_dateStats ?r = None" if "\<forall>v \<in> set ?xs. \<not> converts p v"
  proof (cases "ca_type ?r = ''Date''")
    case True
    with a that show ?thesis by blast
  next
    case False
    then show ?thesis by (rule c)
  qed
  have e: "(datePart p ''Date'' xs = None) = (\<forall>v \<in> set xs. \<not> converts p v)"
    by (simp add: datePart_Date dateValues_Nil_iff)
  have f: "set (dateValues p xs) = {t. \<exists>v \<in> set xs. Date_parse p (StringOf p v) = Some t}"
    by (simp add: dateValues_def set_map_filter_conv)
  have "col \<in> set cols \<Longrightarrow> columns (generateGlobalAnalysis p data cols) col = Some ?r"
    by (simp add: columns_generateGlobalAnalysis)
  then show ?thesis
    using a b c d e f by blast
qed

theorem date_stats_of_date_columns_witness:
  "''c'' \<in> set [''c'', ''d'']
   \<and> (\<exists>r ds. columns (generateGlobalAnalysis examplePlatform (columnTable dateColumn)
                 [''c'', ''d'']) ''c'' = Some r
          \<and> ca_type r = ''Date'' \<and> ca_dateStats r = Some ds
          \<and> ds_min ds = ''2023-01-01'' \<and> ds_max ds = ''2023-02-01'' \<and> ds_invalidCount ds = 0
          \<and> isYMD (ds_min ds) \<and> isYMD (ds_max ds))
   \<and> isISODateTime (Date_toISOString examplePlatform 1672531200000)
   \<and> isISODateTime (Date_toISOString examplePlatform 1675209600000)
   \<and> ''d'' \<in> set [''c'', ''d'']
   \<and> nonNullOf (columnTable dateColumn) ''d'' = []
   \<and> (\<exists>r. columns (generateGlobalAnalysis examplePlatform (columnTable dateColumn)
              [''c'', ''d'']) ''d'' = Some r
          \<and> ca_type r \<noteq> ''Date'' \<and> ca_dateStats r = None)"
proof -
  let ?xs = "[Str ''2023-02-01'', Str ''2023-01-01'']"
  let ?g = "generateGlobalAnalysis examplePlatform (columnTable dateColumn) [''c'', ''d'']"
  have c: "''c'' \<in> set [''c'', ''d'']" and d: "''d'' \<in> set [''c'', ''d'']" by simp_all
  have n: "filter nonMissing dateColumn = ?xs"
    by (simp add: dateColumn_def)
  have nd: "nonNullOf (columnTable dateColumn) ''d'' = []"
    by (simp add: dateColumn_def columnValues_def columnTable_def getCell_def)
  have t: "ca_type (analyzeColumn examplePlatform (columnTable dateColumn) ''c'') = ''Date''"
    by (simp add: ca_type_analyzeColumn n fst_detectType numCount_def strCount_def dateCount_def
        looksLikeDate_def examplePlatform_def)
  have td: "ca_type (analyzeColumn examplePlatform (columnTable dateColumn) ''d'') = ''Categorical''"
    by (simp add: ca_type_analyzeColumn nd fst_detectType numCount_def strCount_def dateCount_def)
  have fc: "filter (converts examplePlatform) ?xs = ?xs"
    by (simp add: examplePlatform_def)
  have dv: "dateValues examplePlatform ?xs = [1672531200000, 1675209600000]"
    by (simp add: dateValues_def examplePlatform_def)
  have mm: "Min (set [1672531200000, 1675209600000 :: int]) = 1672531200000"
    "Max (set [1672531200000, 1675209600000 :: int]) = 1675209600000"
    by simp_all
  have iso: "isISODateTime (Date_toISOString examplePlatform 1672531200000)"
    "isISODateTime (Date_toISOString examplePlatform 1675209600000)"
    by (simp_all add: examplePlatform_def isISODateTime_def isYMD_def isDigit_def)
  have days: "isoDay examplePlatform 1672531200000 = ''2023-01-01''"
    "isoDay examplePlatform 1675209600000 = ''2023-02-01''"
    by (simp_all add: isoDay_def examplePlatform_def)
  from date_stats_of_date_columns [of "''c''" "[''c'', ''d'']" examplePlatform
      "columnTable dateColumn" "[]"] c
  obtain r where r: "columns ?g ''c'' = Some r"
    and rd: "ca_type r = ''Date'' \<longrightarrow>
       (\<exists>ds. ca_dateStats r = Some ds
          \<and> ds_invalidCount ds = length (nonNullOf (columnTable dateColumn) ''c'')
                - length (filter (converts examplePlatform) (nonNullOf (columnTable dateColumn) ''c''))
          \<and> ds_min ds = isoDay examplePlatform
               (Min (set (dateValues examplePlatform (nonNullOf (columnTable dateColumn) ''c''))))
          \<and> ds_max ds = isoDay examplePlatform
               (Max (set (dateValues examplePlatform (nonNullOf (columnTable dateColumn) ''c''))))
          \<and> (isISODateTime (Date_toISOString examplePlatform
                (Min (set (dateValues examplePlatform (nonNullOf (columnTable dateColumn) ''c'')))))
              \<longrightarrow> isYMD (ds_min ds))
          \<and> (isISODateTime (Date_toISOString examplePlatform
                (Max (set (dateValues examplePlatform (nonNullOf (columnTable dateColumn) ''c'')))))
              \<longrightarrow> isYMD (ds_max ds)))"
    by blast
  have rt: "ca_type r = ''Date''"
    using r t by (simp add: columns_generateGlobalAnalysis)
  from rd rt iso have a: "\<exists>ds. ca_dateStats r = Some ds
          \<and> ds_min ds = ''2023-01-01'' \<and> ds_max ds = ''2023-02-01'' \<and> ds_invalidCount ds = 0
          \<and> isYMD (ds_min ds) \<and> isYMD (ds_max ds)"
    unfolding columnValues_columnTable n fc dv mm days by auto
  from date_stats_of_date_columns [of "''d''" "[''c'', ''d'']" examplePlatform
      "columnTable dateColumn" "[]"] d
  obtain r' where r': "columns ?g ''d'' = Some r'"
    and rn: "ca_type r' \<noteq> ''Date'' \<longrightarrow> ca_dateStats r' = None"
    by blast
  have rt': "ca_type r' \<noteq> ''Date''"
    using r' td by (auto simp: columns_generateGlobalAnalysis)
  show ?thesis
    using c d nd iso r rt a r' rt' rn by blast
qed

text \<open>
  The first instant of the year 10000 makes a Date column; its rendering has the expanded
  year, so \<^verbatim>\<open>min\<close> and \<^verbatim>\<open>max\<close> are \<^verbatim>\<open>+010000-01-01\<close>, which is not of the shape \<^verbatim>\<open>YYYY-MM-DD\<close>.
\<close>

theorem date_stats_counterexample:
  "map_option ca_type (columns (generateGlobalAnalysis expandedYearPlatform
       (columnTable expandedYearColumn) [''c'']) ''c'') = Some ''Date''
   \<and> map_option ca_dateStats (columns (generateGlobalAnalysis expandedYearPlatform
       (columnTable expandedYearColumn) [''c'']) ''c'')
       = Some (Some \<lparr>ds_min = ''+010000-01-01'', ds_max = ''+010000-01-01'', ds_invalidCount = 0\<rparr>)
   \<and> \<not> isYMD ''+010000-01-01''"
proof -
  have t: "detectType expandedYearPlatform expandedYearColumn = (''Date'', [])"
    by (simp add: detectType_def expandedYearColumn_def numCount_def strCount_def dateCount_def
        looksLikeDate_def expandedYearPlatform_def)
  have dv: "dateValues expandedYearPlatform expandedYearColumn = [253402300800000]"
    by (simp add: dateValues_def expandedYearColumn_def expandedYearPlatform_def)
  have day: "isoDay expandedYearPlatform 253402300800000 = ''+010000-01-01''"
    by (simp add: isoDay_def expandedYearPlatform_def)
  have nn: "filter nonMissing expandedYearColumn = expandedYearColumn"
    by (simp add: expandedYearColumn_def)
  have len: "length expandedYearColumn = 1"
    by (simp add: expandedYearColumn_def)
  have "\<not> isYMD ''+010000-01-01''"
    by (simp add: isYMD_def)
  then show ?thesis
    by (simp add: columns_generateGlobalAnalysis analyzeColumn_def Let_def nn t datePart_def dv day
        len numericPart_def)
qed

section \<open>Mode\<close>

text \<open>
  C4, as the code has it. For a non-empty input the mode is obtained by grouping the
  values by their string representation and keeping the keys of maximal frequency, in the
  order in which \<^verbatim>\<open>Object.keys\<close> lists the keys of the grouping object: the keys that are
  array indices first, in ascending numeric order, then the other keys in
  first-encountered order. The first three of them are converted back to a number when
  they parse as one and kept as text otherwise. The result has at most three elements;
  it is in first-encountered order when no key is an array index; and the mode of
  1, 1, 2, 2, 3 is 1, 2.
\<close>

theorem mode_in_own_key_order:
  "(vs \<noteq> [] \<longrightarrow> getMode p vs =
      take 3 (map (numberOrText p)
        (filter (\<lambda>k. count_list (keysOf p vs) k = maxFrequency (keysOf p vs))
           (ownPropertyKeys (firstOccurrences (keysOf p vs))))))
   \<and> (vs \<noteq> [] \<longrightarrow> maxFrequency (keysOf p vs) = Max (count_list (keysOf p vs) ` set (keysOf p vs)))
   \<and> length (getMode p vs) \<le> 3
   \<and> ((\<forall>v \<in> set vs. arrayIndex (StringOf p (Num v)) = None) \<longrightarrow> getMode p vs = spec_mode p vs)
   \<and> (Number_toString p 1 = ''1'' \<and> Number_toString p 2 = ''2'' \<and> Number_toString p 3 = ''3''
       \<and> String_toNumber p ''1'' = Some 1 \<and> String_toNumber p ''2'' = Some 2 \<longrightarrow>
       getMode p [1, 1, 2, 2, 3] = [Num 1, Num 2])"
proof -
  have m: "maxFrequency (keysOf p vs) = Max (count_list (keysOf p vs) ` set (keysOf p vs))"
    if "vs \<noteq> []"
  proof -
    have "keysOf p vs \<noteq> []" using that by simp
    then show ?thesis by (simp only: maxFrequency_def if_False set_map)
  qed
  show ?thesis
    using getMode_eq [of vs p] m length_getMode [of p vs] getMode_no_index_keys [of vs p]
      ex_mode [of p]
    by blast
qed

theorem mode_in_own_key_order_witness:
  "Number_toString examplePlatform 1 = ''1'' \<and> Number_toString examplePlatform 2 = ''2''
   \<and> Number_toString examplePlatform 3 = ''3''
   \<and> String_toNumber examplePlatform ''1'' = Some 1 \<and> String_toNumber examplePlatform ''2'' = Some 2
   \<and> getMode examplePlatform [1, 1, 2, 2, 3] = [Num 1, Num 2]
   \<and> [1, 1, 2, 2, 3 :: real] \<noteq> []
   \<and> length (getMode examplePlatform [1, 1, 2, 2, 3]) \<le> 3
   \<and> arrayIndex (StringOf examplePlatform (Num (- 2))) = None
   \<and> arrayIndex (StringOf examplePlatform (Num (- 1))) = None
   \<and> getMode examplePlatform [- 2, - 2, - 1, - 1] = [Num (- 2), Num (- 1)]"
proof -
  note d = examplePlatform_digits
  note n = examplePlatform_negatives
  from mode_in_own_key_order [of "[1, 1, 2, 2, 3]" examplePlatform]
  have a: "getMode examplePlatform [1, 1, 2, 2, 3] = [Num 1, Num 2]"
    and b: "length (getMode examplePlatform [1, 1, 2, 2, 3]) \<le> 3"
    using d by blast+
  have i: "\<forall>v \<in> set [- 2, - 2, - 1, - 1]. arrayIndex (StringOf examplePlatform (Num v)) = None"
    by (simp add: n)
  from mode_in_own_key_order [of "[- 2, - 2, - 1, - 1]" examplePlatform] i
  have "getMode examplePlatform [- 2, - 2, - 1, - 1] = spec_mode examplePlatform [- 2, - 2, - 1, - 1]"
    by blast
  then have c: "getMode examplePlatform [- 2, - 2, - 1, - 1] = [Num (- 2), Num (- 1)]"
    by (simp only: ex_spec_mode_negatives)
  show ?thesis using a b c d by (simp add: n)
qed

text \<open>
  The values 2, 2, 1, 1 are tied: in first-encountered order the mode is 2, 1, and the
  code returns 1, 2, since both keys are array indices.
\<close>

theorem mode_counterexample:
  "getMode examplePlatform [2, 2, 1, 1] = [Num 1, Num 2]
   \<and> spec_mode examplePlatform [2, 2, 1, 1] = [Num 2, Num 1]"
  by (simp add: ex_mode_reordered ex_spec_mode)

end
